theory Spec2Isabelle
  imports Main "HOL-Library.Word"
begin

unbundle bit_operations_syntax

section \<open>JavaScript values used by the library\<close>

text \<open>
  The library computes with JavaScript numbers, strings and byte arrays.
  \<^item> A number that holds an integer is an \<open>int\<close>: the counter, the timestamp, the period
    and the window are integers that a number holds exactly, and the digit count is a natural
    number. The bitwise operators first coerce their operands to 32 bits (\<open>ToInt32\<close>,
    \<open>ToUint32\<close>), which is written out below with \<open>32 word\<close>; \<open>NaN\<close>, \<open>undefined\<close> and
    the infinities coerce to 0.
  \<^item> A \<open>Uint8Array\<close> or \<open>Buffer\<close> is a list of bytes.
  \<^item> A string is a list of characters; the character classes of the regular expressions
    and \<open>toUpperCase\<close> are those of ASCII text.
\<close>

type_synonym byte = "8 word"
type_synonym bytes = "byte list"

definition toInt32 :: "int \<Rightarrow> 32 word" where
  "toInt32 x = word_of_int x"

text \<open>\<open>a & b\<close>, \<open>a | b\<close>, \<open>a << n\<close>: the result is a signed 32-bit integer.\<close>

definition js_and :: "int \<Rightarrow> int \<Rightarrow> int" where
  "js_and a b = sint (toInt32 a AND toInt32 b)"

definition js_or :: "int \<Rightarrow> int \<Rightarrow> int" where
  "js_or a b = sint (toInt32 a OR toInt32 b)"

definition js_shl :: "int \<Rightarrow> nat \<Rightarrow> int" where
  "js_shl a n = sint (push_bit (n mod 32) (toInt32 a))"

text \<open>\<open>a >>> n\<close>: the result is an unsigned 32-bit integer.\<close>

definition js_ushr :: "int \<Rightarrow> nat \<Rightarrow> int" where
  "js_ushr a n = uint (drop_bit (n mod 32) (toInt32 a))"

text \<open>\<open>a % b\<close> takes the sign of the dividend.\<close>

definition js_rem :: "int \<Rightarrow> int \<Rightarrow> int" where
  "js_rem a b = sgn a * (\<bar>a\<bar> mod \<bar>b\<bar>)"

text \<open>
  \<open>buf[i]\<close> read as an operand of \<open>&\<close>: a byte inside the buffer, and \<open>undefined\<close>,
  which \<open>&\<close> coerces to 0, outside of it.
\<close>

definition byteAt :: "bytes \<Rightarrow> int \<Rightarrow> int" where
  "byteAt buf i = (if 0 \<le> i \<and> i < int (length buf) then uint (buf ! nat i) else 0)"

text \<open>\<open>Number.prototype.toString\<close> on an integer: its decimal digits.\<close>

definition digitChar :: "nat \<Rightarrow> char" where
  "digitChar d = char_of (48 + d)"

fun natToString :: "nat \<Rightarrow> string" where
  "natToString n = (if n < 10 then [digitChar n] else natToString (n div 10) @ [digitChar (n mod 10)])"

definition numberToString :: "int \<Rightarrow> string" where
  "numberToString x = (if x < 0 then CHR ''-'' # natToString (nat (- x)) else natToString (nat x))"

text \<open>\<open>s.padStart(n, c)\<close> with a one-character filler.\<close>

definition padStart :: "string \<Rightarrow> nat \<Rightarrow> char \<Rightarrow> string" where
  "padStart s n c = (if n \<le> length s then s else replicate (n - length s) c @ s)"

text \<open>
  The character classes \<open>\s\<close>, \<open>\d\<close> and \<open>[A-Z2-7]\<close>, and \<open>toUpperCase\<close>. In JavaScript
  \<open>\d\<close> and \<open>[A-Z2-7]\<close> match ASCII characters only, as they do here. \<open>\s\<close> and \<open>toUpperCase\<close>
  are modelled as JavaScript defines them on ASCII text, the characters below 128: there \<open>\s\<close>
  matches the tab, the line feed, the vertical tab, the form feed, the carriage return and
  the space, and \<open>toUpperCase\<close> changes the letters \<open>a\<close> to \<open>z\<close> only. Outside ASCII,
  JavaScript's \<open>\s\<close> also matches U+00A0 and the other Unicode spaces, and \<open>toUpperCase\<close> maps
  further letters (U+00E9 to U+00C9, U+00DF to the two letters \<open>SS\<close>), which the model does not
  follow. The properties of \<open>normalizeSecret\<close> and of the decoder that depend on the two are
  therefore stated for ASCII text, \<open>asciiText\<close>.
\<close>

definition asciiText :: "string \<Rightarrow> bool" where
  "asciiText s \<longleftrightarrow> list_all (\<lambda>c. (of_char c :: nat) < 128) s"

definition isWhitespace :: "char \<Rightarrow> bool" where
  "isWhitespace c \<longleftrightarrow> (9 \<le> (of_char c :: nat) \<and> (of_char c :: nat) \<le> 13)
     \<or> (of_char c :: nat) = 32"

definition isDigit :: "char \<Rightarrow> bool" where
  "isDigit c \<longleftrightarrow> 48 \<le> (of_char c :: nat) \<and> (of_char c :: nat) \<le> 57"

definition isBase32Char :: "char \<Rightarrow> bool" where
  "isBase32Char c \<longleftrightarrow> (65 \<le> (of_char c :: nat) \<and> (of_char c :: nat) \<le> 90)
     \<or> (50 \<le> (of_char c :: nat) \<and> (of_char c :: nat) \<le> 55)"

definition toUpperChar :: "char \<Rightarrow> char" where
  "toUpperChar c = (if 97 \<le> (of_char c :: nat) \<and> (of_char c :: nat) \<le> 122
     then char_of ((of_char c :: nat) - 32) else c)"

definition toUpperCase :: "string \<Rightarrow> string" where
  "toUpperCase s = map toUpperChar s"

text \<open>\<open>s.indexOf(c)\<close> for a single character: the first position, or -1.\<close>

fun indexFrom :: "string \<Rightarrow> char \<Rightarrow> int \<Rightarrow> int" where
  "indexFrom [] c i = - 1"
| "indexFrom (x # xs) c i = (if x = c then i else indexFrom xs c (i + 1))"

definition indexOf :: "string \<Rightarrow> char \<Rightarrow> int" where
  "indexOf s c = indexFrom s c 0"

section \<open>types.ts\<close>

datatype HashAlgorithm = SHA1 | SHA256 | SHA512

record TOTPOptions =
  algorithm :: "HashAlgorithm option"
  digits :: "nat option"
  period :: "int option"
  timestamp :: "int option"
  window :: "int option"

record VerifyResult =
  valid :: bool
  delta :: "int option"

section \<open>utils.ts\<close>

subsection \<open>normalizeSecret and decodeBase32\<close>

text \<open>\<open>secret.replace(/\s+/g, '').toUpperCase()\<close>\<close>

definition normalizeSecret :: "string \<Rightarrow> string" where
  "normalizeSecret secret = toUpperCase (filter (\<lambda>c. \<not> isWhitespace c) secret)"

text \<open>\<open>.replace(/=+$/, '')\<close>: the trailing run of \<open>=\<close> is removed.\<close>

definition stripPadding :: "string \<Rightarrow> string" where
  "stripPadding s = rev (dropWhile (\<lambda>c. c = CHR ''='') (rev s))"

text \<open>
  The two errors of \<open>decodeBase32\<close>: \<open>Empty Base32 string\<close> and
  \<open>Invalid base32 character in key\<close>.
\<close>

datatype base32_error = EmptyBase32String | InvalidBase32Character

definition alphabet :: string where
  "alphabet = ''ABCDEFGHIJKLMNOPQRSTUVWXYZ234567''"

text \<open>
  The loop over the characters of \<open>normalizedKey\<close>, with the variables \<open>bits\<close>,
  \<open>value\<close> and \<open>result\<close>.
\<close>

fun decodeLoop :: "string \<Rightarrow> nat \<Rightarrow> int \<Rightarrow> bytes \<Rightarrow> bytes" where
  "decodeLoop [] bits val result = result"
| "decodeLoop (char # rest) bits val result =
     (let val' = js_or (js_shl val 5) (indexOf alphabet char);
          bits' = bits + 5
      in if bits' \<ge> 8
         then decodeLoop rest (bits' - 8) val'
                (result @ [word_of_int (js_and (js_ushr val' (bits' - 8)) 0xff)])
         else decodeLoop rest bits' val' result)"

definition decodeBase32 :: "string \<Rightarrow> base32_error + bytes" where
  "decodeBase32 base32 =
     (let normalizedKey = stripPadding (normalizeSecret base32)
      in if length normalizedKey = 0 then Inl EmptyBase32String
         else if \<not> (normalizedKey \<noteq> [] \<and> list_all isBase32Char normalizedKey)
           then Inl InvalidBase32Character
         else Inr (decodeLoop normalizedKey 0 0 []))"

subsection \<open>generateHOTP\<close>

text \<open>
  The keyed hash of Node's \<open>crypto\<close> module, \<open>createHmac(name, key).update(msg).digest()\<close>,
  is a parameter of the model; the module is taken to be present, so that \<open>require\<close> does
  not throw.
\<close>

type_synonym hmac_fn = "HashAlgorithm \<Rightarrow> bytes \<Rightarrow> bytes \<Rightarrow> bytes"

text \<open>
  The loop \<open>for (let i = 7; i >= 0; i--)\<close> that fills \<open>counterBuffer\<close>:
  \<open>fillCounter (i + 1) tempCounter buf\<close> is the state before the iteration at index \<open>i\<close>.
\<close>

fun fillCounter :: "nat \<Rightarrow> int \<Rightarrow> bytes \<Rightarrow> bytes" where
  "fillCounter 0 tempCounter buf = buf"
| "fillCounter (Suc i) tempCounter buf =
     fillCounter i (js_ushr tempCounter 8) (buf[i := word_of_int (js_and tempCounter 0xff)])"

definition counterBuffer :: "int \<Rightarrow> bytes" where
  "counterBuffer counter = fillCounter 8 counter (replicate 8 0)"

definition dynamicOffset :: "bytes \<Rightarrow> int" where
  "dynamicOffset digest = js_and (byteAt digest (int (length digest) - 1)) 0x0f"

definition dynamicBinary :: "bytes \<Rightarrow> int" where
  "dynamicBinary digest =
     (let offset = dynamicOffset digest
      in js_or (js_or (js_or
           (js_shl (js_and (byteAt digest offset) 0x7f) 24)
           (js_shl (js_and (byteAt digest (offset + 1)) 0xff) 16))
           (js_shl (js_and (byteAt digest (offset + 2)) 0xff) 8))
           (js_and (byteAt digest (offset + 3)) 0xff))"

text \<open>
  \<open>binary % Math.pow(10, digits)\<close>: the power is exact up to 22 digits and above \<open>2 ^ 31\<close>
  beyond, so that the remainder is that of the division by \<open>10 ^ digits\<close> in every case.
\<close>

definition generateHOTP :: "hmac_fn \<Rightarrow> bytes \<Rightarrow> int \<Rightarrow> HashAlgorithm \<Rightarrow> nat \<Rightarrow> string" where
  "generateHOTP hmac key counter alg digs =
     (let digest = hmac alg key (counterBuffer counter);
          binary = dynamicBinary digest;
          otp = js_rem binary (10 ^ digs)
      in padStart (numberToString otp) digs CHR ''0'')"

section \<open>The keyed hash of Node's crypto module\<close>

text \<open>
  \<open>generateHOTP\<close> obtains the digest from \<open>crypto.createHmac\<close>, which is not part of
  the library. The model takes the keyed hash as a parameter, and the properties below hold
  for every such function. \<open>createHmac\<close> is the function that Node provides: HMAC
  (RFC 2104) over SHA-1, SHA-256 and SHA-512 (FIPS 180-4), on bytes and words held as
  integers. It is used to run the library on concrete inputs.
\<close>

definition add32 :: "int \<Rightarrow> int \<Rightarrow> int" where
  "add32 x y = (x + y) mod 4294967296"

definition rotl32 :: "nat \<Rightarrow> int \<Rightarrow> int" where
  "rotl32 n x = (x * 2 ^ n) mod 4294967296 + x div 2 ^ (32 - n)"

definition lengthBytes :: "nat \<Rightarrow> int list" where
  "lengthBytes l = (let b = 8 * int l in
     [b div 72057594037927936 mod 256, b div 281474976710656 mod 256, b div 1099511627776 mod 256,
      b div 4294967296 mod 256, b div 16777216 mod 256, b div 65536 mod 256, b div 256 mod 256,
      b mod 256])"


definition sha_pad :: "nat \<Rightarrow> nat \<Rightarrow> int list \<Rightarrow> int list" where
  "sha_pad blocksize lenbytes m =
     m @ [128] @ replicate ((2 * blocksize - 1 - lenbytes - length m mod blocksize) mod blocksize) 0
       @ replicate (lenbytes - 8) 0 @ lengthBytes (length m)"

fun words32 :: "int list \<Rightarrow> int list" where
  "words32 (a # b # c # d # r) = (a * 16777216 + b * 65536 + c * 256 + d) # words32 r"
| "words32 r = []"

fun sha1_schedule :: "nat \<Rightarrow> int list \<Rightarrow> int list" where
  "sha1_schedule 0 ws = ws"
| "sha1_schedule (Suc n) ws =
     hd ws # sha1_schedule n (tl ws @ [rotl32 1 (ws ! 13 XOR ws ! 8 XOR ws ! 2 XOR ws ! 0)])"

definition sha1_f :: "nat \<Rightarrow> int \<Rightarrow> int \<Rightarrow> int \<Rightarrow> int" where
  "sha1_f t b c d =
     (if t < 20 then (b AND c) OR ((4294967295 - b) AND d)
      else if t < 40 then b XOR c XOR d
      else if t < 60 then (b AND c) OR (b AND d) OR (c AND d)
      else b XOR c XOR d)"

definition sha1_k :: "nat \<Rightarrow> int" where
  "sha1_k t = (if t < 20 then 0x5A827999 else if t < 40 then 0x6ED9EBA1
     else if t < 60 then 0x8F1BBCDC else 0xCA62C1D6)"

type_synonym sha1_state = "int \<times> int \<times> int \<times> int \<times> int"

fun sha1_rounds :: "nat \<Rightarrow> int list \<Rightarrow> sha1_state \<Rightarrow> sha1_state" where
  "sha1_rounds t [] s = s"
| "sha1_rounds t (w # ws) (a, b, c, d, e) =
     sha1_rounds (t + 1) ws
       (add32 (add32 (add32 (add32 (rotl32 5 a) (sha1_f t b c d)) e) (sha1_k t)) w,
        a, rotl32 30 b, c, d)"

fun sha1_block :: "sha1_state \<Rightarrow> int list \<Rightarrow> sha1_state" where
  "sha1_block (a, b, c, d, e) blk =
     (case sha1_rounds 0 (sha1_schedule 64 blk) (a, b, c, d, e) of
        (a', b', c', d', e') \<Rightarrow> (add32 a a', add32 b b', add32 c c', add32 d d', add32 e e'))"

fun sha1_blocks :: "sha1_state \<Rightarrow> int list \<Rightarrow> sha1_state" where
  "sha1_blocks s [] = s"
| "sha1_blocks s (w # ws) = sha1_blocks (sha1_block s (take 16 (w # ws))) (drop 16 (w # ws))"

definition word32_bytes :: "int \<Rightarrow> int list" where
  "word32_bytes w = [w div 16777216, w div 65536 mod 256, w div 256 mod 256, w mod 256]"

definition sha1 :: "int list \<Rightarrow> int list" where
  "sha1 m =
     (case sha1_blocks (0x67452301, 0xEFCDAB89, 0x98BADCFE, 0x10325476, 0xC3D2E1F0)
             (words32 (sha_pad 64 8 m)) of
        (a, b, c, d, e) \<Rightarrow> concat (map word32_bytes [a, b, c, d, e]))"

text \<open>SHA-256 and SHA-512 (FIPS 180-4), on words of \<open>w\<close> bits.\<close>

definition rotr :: "nat \<Rightarrow> nat \<Rightarrow> int \<Rightarrow> int" where
  "rotr w n x = x div 2 ^ n + (x mod 2 ^ n) * 2 ^ (w - n)"

definition sha2_ch :: "nat \<Rightarrow> int \<Rightarrow> int \<Rightarrow> int \<Rightarrow> int" where
  "sha2_ch w x y z = (x AND y) XOR ((2 ^ w - 1 - x) AND z)"

definition sha2_maj :: "int \<Rightarrow> int \<Rightarrow> int \<Rightarrow> int" where
  "sha2_maj x y z = (x AND y) XOR (x AND z) XOR (y AND z)"

definition bsig0 :: "nat \<Rightarrow> int \<Rightarrow> int" where
  "bsig0 w x = (if w = 32 then rotr w 2 x XOR rotr w 13 x XOR rotr w 22 x
                else rotr w 28 x XOR rotr w 34 x XOR rotr w 39 x)"

definition bsig1 :: "nat \<Rightarrow> int \<Rightarrow> int" where
  "bsig1 w x = (if w = 32 then rotr w 6 x XOR rotr w 11 x XOR rotr w 25 x
                else rotr w 14 x XOR rotr w 18 x XOR rotr w 41 x)"

definition ssig0 :: "nat \<Rightarrow> int \<Rightarrow> int" where
  "ssig0 w x = (if w = 32 then rotr w 7 x XOR rotr w 18 x XOR x div 2 ^ 3
                else rotr w 1 x XOR rotr w 8 x XOR x div 2 ^ 7)"

definition ssig1 :: "nat \<Rightarrow> int \<Rightarrow> int" where
  "ssig1 w x = (if w = 32 then rotr w 17 x XOR rotr w 19 x XOR x div 2 ^ 10
                else rotr w 19 x XOR rotr w 61 x XOR x div 2 ^ 6)"

definition sha256_k :: "int list" where
  "sha256_k =
    [0x428A2F98, 0x71374491, 0xB5C0FBCF, 0xE9B5DBA5, 0x3956C25B, 0x59F111F1,
     0x923F82A4, 0xAB1C5ED5, 0xD807AA98, 0x12835B01, 0x243185BE, 0x550C7DC3,
     0x72BE5D74, 0x80DEB1FE, 0x9BDC06A7, 0xC19BF174, 0xE49B69C1, 0xEFBE4786,
     0xFC19DC6, 0x240CA1CC, 0x2DE92C6F, 0x4A7484AA, 0x5CB0A9DC, 0x76F988DA,
     0x983E5152, 0xA831C66D, 0xB00327C8, 0xBF597FC7, 0xC6E00BF3, 0xD5A79147,
     0x6CA6351, 0x14292967, 0x27B70A85, 0x2E1B2138, 0x4D2C6DFC, 0x53380D13,
     0x650A7354, 0x766A0ABB, 0x81C2C92E, 0x92722C85, 0xA2BFE8A1, 0xA81A664B,
     0xC24B8B70, 0xC76C51A3, 0xD192E819, 0xD6990624, 0xF40E3585, 0x106AA070,
     0x19A4C116, 0x1E376C08, 0x2748774C, 0x34B0BCB5, 0x391C0CB3, 0x4ED8AA4A,
     0x5B9CCA4F, 0x682E6FF3, 0x748F82EE, 0x78A5636F, 0x84C87814, 0x8CC70208,
     0x90BEFFFA, 0xA4506CEB, 0xBEF9A3F7, 0xC67178F2]"

definition sha512_k :: "int list" where
  "sha512_k =
    [0x428A2F98D728AE22, 0x7137449123EF65CD, 0xB5C0FBCFEC4D3B2F, 0xE9B5DBA58189DBBC,
     0x3956C25BF348B538, 0x59F111F1B605D019, 0x923F82A4AF194F9B, 0xAB1C5ED5DA6D8118,
     0xD807AA98A3030242, 0x12835B0145706FBE, 0x243185BE4EE4B28C, 0x550C7DC3D5FFB4E2,
     0x72BE5D74F27B896F, 0x80DEB1FE3B1696B1, 0x9BDC06A725C71235, 0xC19BF174CF692694,
     0xE49B69C19EF14AD2, 0xEFBE4786384F25E3, 0xFC19DC68B8CD5B5, 0x240CA1CC77AC9C65,
     0x2DE92C6F592B0275, 0x4A7484AA6EA6E483, 0x5CB0A9DCBD41FBD4, 0x76F988DA831153B5,
     0x983E5152EE66DFAB, 0xA831C66D2DB43210, 0xB00327C898FB213F, 0xBF597FC7BEEF0EE4,
     0xC6E00BF33DA88FC2, 0xD5A79147930AA725, 0x6CA6351E003826F, 0x142929670A0E6E70,
     0x27B70A8546D22FFC, 0x2E1B21385C26C926, 0x4D2C6DFC5AC42AED, 0x53380D139D95B3DF,
     0x650A73548BAF63DE, 0x766A0ABB3C77B2A8, 0x81C2C92E47EDAEE6, 0x92722C851482353B,
     0xA2BFE8A14CF10364, 0xA81A664BBC423001, 0xC24B8B70D0F89791, 0xC76C51A30654BE30,
     0xD192E819D6EF5218, 0xD69906245565A910, 0xF40E35855771202A, 0x106AA07032BBD1B8,
     0x19A4C116B8D2D0C8, 0x1E376C085141AB53, 0x2748774CDF8EEB99, 0x34B0BCB5E19B48A8,
     0x391C0CB3C5C95A63, 0x4ED8AA4AE3418ACB, 0x5B9CCA4F7763E373, 0x682E6FF3D6B2B8A3,
     0x748F82EE5DEFB2FC, 0x78A5636F43172F60, 0x84C87814A1F0AB72, 0x8CC702081A6439EC,
     0x90BEFFFA23631E28, 0xA4506CEBDE82BDE9, 0xBEF9A3F7B2C67915, 0xC67178F2E372532B,
     0xCA273ECEEA26619C, 0xD186B8C721C0C207, 0xEADA7DD6CDE0EB1E, 0xF57D4F7FEE6ED178,
     0x6F067AA72176FBA, 0xA637DC5A2C898A6, 0x113F9804BEF90DAE, 0x1B710B35131C471B,
     0x28DB77F523047D84, 0x32CAAB7B40C72493, 0x3C9EBE0A15C9BEBC, 0x431D67C49C100D4C,
     0x4CC5D4BECB3E42B6, 0x597F299CFC657E2A, 0x5FCB6FAB3AD6FAEC, 0x6C44198C4A475817]"

definition sha256_iv :: "int list" where
  "sha256_iv =
    [0x6A09E667, 0xBB67AE85, 0x3C6EF372, 0xA54FF53A,
     0x510E527F, 0x9B05688C, 0x1F83D9AB, 0x5BE0CD19]"

definition sha512_iv :: "int list" where
  "sha512_iv =
    [0x6A09E667F3BCC908, 0xBB67AE8584CAA73B, 0x3C6EF372FE94F82B, 0xA54FF53A5F1D36F1,
     0x510E527FADE682D1, 0x9B05688C2B3E6C1F, 0x1F83D9ABFB41BD6B, 0x5BE0CD19137E2179]"

fun sha2_schedule :: "nat \<Rightarrow> nat \<Rightarrow> int list \<Rightarrow> int list" where
  "sha2_schedule w 0 ws = ws"
| "sha2_schedule w (Suc n) ws =
     hd ws # sha2_schedule w n
       (tl ws @ [(ssig1 w (ws ! 14) + ws ! 9 + ssig0 w (ws ! 1) + ws ! 0) mod 2 ^ w])"

fun sha2_rounds :: "nat \<Rightarrow> int list \<Rightarrow> int list \<Rightarrow> int list \<Rightarrow> int list" where
  "sha2_rounds w (k # ks) (x # xs) s =
     (let t1 = s ! 7 + bsig1 w (s ! 4) + sha2_ch w (s ! 4) (s ! 5) (s ! 6) + k + x;
          t2 = bsig0 w (s ! 0) + sha2_maj (s ! 0) (s ! 1) (s ! 2)
      in sha2_rounds w ks xs
           [(t1 + t2) mod 2 ^ w, s ! 0, s ! 1, s ! 2, (s ! 3 + t1) mod 2 ^ w, s ! 4, s ! 5, s ! 6])"
| "sha2_rounds w ks xs s = s"

definition sha2_block :: "nat \<Rightarrow> int list \<Rightarrow> int list \<Rightarrow> int list \<Rightarrow> int list" where
  "sha2_block w ks s blk =
     map (\<lambda>(x, y). (x + y) mod 2 ^ w) (zip s (sha2_rounds w ks (sha2_schedule w (length ks - 16) blk) s))"

fun wordsOf :: "nat \<Rightarrow> int list \<Rightarrow> int list" where
  "wordsOf n [] = []"
| "wordsOf n (b # bs) =
     (if n = 0 then [] else foldl (\<lambda>v x. v * 256 + x) 0 (take n (b # bs)) # wordsOf n (drop n (b # bs)))"

fun bytesOf :: "nat \<Rightarrow> int \<Rightarrow> int list" where
  "bytesOf 0 x = []"
| "bytesOf (Suc n) x = bytesOf n (x div 256) @ [x mod 256]"

fun sha2_blocks :: "nat \<Rightarrow> int list \<Rightarrow> int list \<Rightarrow> int list \<Rightarrow> int list" where
  "sha2_blocks w ks s [] = s"
| "sha2_blocks w ks s (x # xs) = sha2_blocks w ks (sha2_block w ks s (take 16 (x # xs))) (drop 16 (x # xs))"

definition sha256 :: "int list \<Rightarrow> int list" where
  "sha256 m = concat (map (bytesOf 4) (sha2_blocks 32 sha256_k sha256_iv (wordsOf 4 (sha_pad 64 8 m))))"

definition sha512 :: "int list \<Rightarrow> int list" where
  "sha512 m = concat (map (bytesOf 8) (sha2_blocks 64 sha512_k sha512_iv (wordsOf 8 (sha_pad 128 16 m))))"

text \<open>HMAC (RFC 2104) over a hash with the given block size.\<close>

definition hmacDigest :: "(int list \<Rightarrow> int list) \<Rightarrow> nat \<Rightarrow> int list \<Rightarrow> int list \<Rightarrow> int list" where
  "hmacDigest h blocksize key msg =
     (let k0 = (if blocksize < length key then h key else key);
          k = k0 @ replicate (blocksize - length k0) 0
      in h (map (\<lambda>x. x XOR 0x5c) k @ h (map (\<lambda>x. x XOR 0x36) k @ msg)))"

definition createHmac :: "HashAlgorithm \<Rightarrow> bytes \<Rightarrow> bytes \<Rightarrow> bytes" where
  "createHmac alg key msg =
     map word_of_int
       ((case alg of SHA1 \<Rightarrow> hmacDigest sha1 64 | SHA256 \<Rightarrow> hmacDigest sha256 64
           | SHA512 \<Rightarrow> hmacDigest sha512 128)
          (map uint key) (map uint msg))"

section \<open>totp.ts\<close>

subsection \<open>generateTOTP\<close>

text \<open>
  The \<open>secret\<close> argument is a string or a \<open>Uint8Array\<close>; \<open>NoSecret\<close> stands for
  \<open>undefined\<close> or \<open>null\<close> handed over by an untyped caller.
\<close>

datatype Secret = TextSecret string | BytesSecret bytes | NoSecret

text \<open>
  The errors thrown by \<open>generateTOTP\<close>: \<open>Secret must be provided\<close>, and
  \<open>Invalid secret: \<close> followed by the message of the error of \<open>decodeBase32\<close>.
\<close>

datatype error = MissingSecret | InvalidSecret base32_error

text \<open>\<open>!secret\<close>: the empty string, \<open>undefined\<close> and \<open>null\<close> are falsy; every object is truthy.\<close>

fun falsy :: "Secret \<Rightarrow> bool" where
  "falsy (TextSecret s) = (s = [])"
| "falsy (BytesSecret b) = False"
| "falsy NoSecret = True"

text \<open>The branch on \<open>typeof secret === 'string'\<close>, reached by a truthy secret only.\<close>

fun secretBytes :: "Secret \<Rightarrow> error + bytes" where
  "secretBytes (TextSecret s) =
     (case decodeBase32 s of Inl e \<Rightarrow> Inl (InvalidSecret e) | Inr b \<Rightarrow> Inr b)"
| "secretBytes (BytesSecret b) = Inr b"
| "secretBytes NoSecret = Inl MissingSecret"

text \<open>
  The defaults of the destructured options; \<open>now\<close> is the value of \<open>Date.now()\<close>.
\<close>

definition optAlgorithm :: "TOTPOptions \<Rightarrow> HashAlgorithm" where
  "optAlgorithm options = (case algorithm options of None \<Rightarrow> SHA1 | Some a \<Rightarrow> a)"

definition optDigits :: "TOTPOptions \<Rightarrow> nat" where
  "optDigits options = (case digits options of None \<Rightarrow> 6 | Some d \<Rightarrow> d)"

definition optPeriod :: "TOTPOptions \<Rightarrow> int" where
  "optPeriod options = (case period options of None \<Rightarrow> 30 | Some p \<Rightarrow> p)"

definition optTimestamp :: "int \<Rightarrow> TOTPOptions \<Rightarrow> int" where
  "optTimestamp now options = (case timestamp options of None \<Rightarrow> now | Some t \<Rightarrow> t)"

definition optWindow :: "TOTPOptions \<Rightarrow> int" where
  "optWindow options = (case window options of None \<Rightarrow> 1 | Some w \<Rightarrow> w)"

text \<open>
  \<open>Math.floor(timestamp / 1000 / period)\<close> is the floor of the exact quotient, which is
  \<open>div\<close> on \<open>int\<close> by the product. A period of 0 makes the quotient infinite or \<open>NaN\<close>,
  which the bitwise operators of \<open>generateHOTP\<close> read as 0, as \<open>div\<close> by 0 is.
\<close>

definition timeCounter :: "int \<Rightarrow> int \<Rightarrow> int" where
  "timeCounter ts per = ts div (1000 * per)"

definition generateTOTP :: "hmac_fn \<Rightarrow> int \<Rightarrow> Secret \<Rightarrow> TOTPOptions \<Rightarrow> error + string" where
  "generateTOTP hmac now secret options =
     (if falsy secret then Inl MissingSecret
      else case secretBytes secret of
        Inl e \<Rightarrow> Inl e
      | Inr key \<Rightarrow>
          Inr (generateHOTP hmac key
                 (timeCounter (optTimestamp now options) (optPeriod options))
                 (optAlgorithm options) (optDigits options)))"

subsection \<open>verifyTOTP\<close>

text \<open>\<open>!token || token.length !== digits || !/^\d+$/.test(token)\<close>\<close>

definition badFormat :: "string \<Rightarrow> nat \<Rightarrow> bool" where
  "badFormat token digs \<longleftrightarrow>
     token = [] \<or> length token \<noteq> digs \<or> \<not> (token \<noteq> [] \<and> list_all isDigit token)"

text \<open>
  The loop \<open>for (let i = -window; i <= window; i++)\<close>; an error thrown by
  \<open>generateTOTP\<close> leaves the loop and the function.
\<close>

function verifyLoop ::
  "hmac_fn \<Rightarrow> int \<Rightarrow> string \<Rightarrow> Secret \<Rightarrow> HashAlgorithm \<Rightarrow> nat \<Rightarrow> int \<Rightarrow> int \<Rightarrow> int \<Rightarrow> int
     \<Rightarrow> error + VerifyResult" where
  "verifyLoop hmac now token secret alg digs per ts win i =
     (if i \<le> win then
        (let checkTime = ts + i * per * 1000
         in case generateTOTP hmac now secret
                   \<lparr>algorithm = Some alg, digits = Some digs, period = Some per,
                    timestamp = Some checkTime, window = None\<rparr> of
              Inl e \<Rightarrow> Inl e
            | Inr generatedToken \<Rightarrow>
                if generatedToken = token then Inr \<lparr>valid = True, delta = Some i\<rparr>
                else verifyLoop hmac now token secret alg digs per ts win (i + 1))
      else Inr \<lparr>valid = False, delta = None\<rparr>)"
  by pat_completeness auto
termination
  by (relation "measure (\<lambda>(hmac, now, token, secret, alg, digs, per, ts, win, i). nat (win + 1 - i))")
     auto

definition verifyTOTP ::
  "hmac_fn \<Rightarrow> int \<Rightarrow> string \<Rightarrow> Secret \<Rightarrow> TOTPOptions \<Rightarrow> error + VerifyResult" where
  "verifyTOTP hmac now token secret options =
     (if badFormat token (optDigits options) then Inr \<lparr>valid = False, delta = None\<rparr>
      else verifyLoop hmac now token secret (optAlgorithm options) (optDigits options)
             (optPeriod options) (optTimestamp now options) (optWindow options)
             (- optWindow options))"

section \<open>Notions of the specification\<close>

text \<open>The number that a string of decimal digits denotes.\<close>

definition decimalValue :: "string \<Rightarrow> nat" where
  "decimalValue s = foldl (\<lambda>v c. 10 * v + (of_char c - 48)) 0 s"

text \<open>
  The big-endian serialization of a counter into 8 bytes: byte \<open>i\<close>, counted from the most
  significant one, is \<open>floor (counter / 256 ^ (7 - i)) mod 256\<close>.
\<close>

definition bigEndian64 :: "int \<Rightarrow> bytes" where
  "bigEndian64 counter = map (\<lambda>i. word_of_int (counter div 256 ^ (7 - i) mod 256)) [0..<8]"

text \<open>
  Base32 as a bit stream: the value of a symbol (\<open>A\<close> to \<open>Z\<close> are 0 to 25, \<open>2\<close> to \<open>7\<close>
  are 26 to 31), the number that a text denotes in base 32, and the number that a byte
  sequence denotes in base 256, both with the most significant digit first.
\<close>

definition symbolValue :: "char \<Rightarrow> nat" where
  "symbolValue c = (if of_char c < (65::nat) then of_char c - 24 else of_char c - 65)"

definition base32Value :: "string \<Rightarrow> nat" where
  "base32Value s = foldl (\<lambda>v c. 32 * v + symbolValue c) 0 s"

definition bytesValue :: "bytes \<Rightarrow> nat" where
  "bytesValue bs = foldl (\<lambda>v b. 256 * v + unat b) 0 bs"

text \<open>
  Two texts that differ in whitespace only, or in the case of their letters only. The
  whitespace of ASCII is the tab, the line feed, the vertical tab, the form feed, the carriage
  return and the space; \<open>withoutWhitespace\<close> removes these characters. Two characters are the
  same letter when they are equal or when one is the lower-case form of the other, by the
  table of the 26 letters; two texts are the same up to case when they have the same length
  and the same letter at every position.
\<close>

definition whitespaceChars :: string where
  "whitespaceChars = [CHR 0x09, CHR 0x0A, CHR 0x0B, CHR 0x0C, CHR 0x0D, CHR '' '']"

definition withoutWhitespace :: "string \<Rightarrow> string" where
  "withoutWhitespace t = filter (\<lambda>c. c \<notin> set whitespaceChars) t"

definition lowerLetters :: string where
  "lowerLetters = ''abcdefghijklmnopqrstuvwxyz''"

definition upperLetters :: string where
  "upperLetters = ''ABCDEFGHIJKLMNOPQRSTUVWXYZ''"

definition sameLetter :: "char \<Rightarrow> char \<Rightarrow> bool" where
  "sameLetter c d \<longleftrightarrow>
     c = d \<or> (c, d) \<in> set (zip lowerLetters upperLetters)
           \<or> (d, c) \<in> set (zip lowerLetters upperLetters)"

definition sameUpToCase :: "string \<Rightarrow> string \<Rightarrow> bool" where
  "sameUpToCase t u \<longleftrightarrow> list_all2 sameLetter t u"

text \<open>
  The inputs of the library's tests: the secret \<open>JBSWY3DPEHPK3PXP\<close>, and the option bag
  \<open>{timestamp: t, window: w}\<close> that leaves the algorithm, the digits and the period to their
  defaults.
\<close>

definition testSecret :: Secret where
  "testSecret = TextSecret ''JBSWY3DPEHPK3PXP''"

definition timeOptions :: "int \<Rightarrow> int option \<Rightarrow> TOTPOptions" where
  "timeOptions t w = \<lparr>algorithm = None, digits = None, period = None, timestamp = Some t, window = w\<rparr>"

section \<open>The JavaScript operators on integers\<close>

declare natToString.simps [simp del]
declare verifyLoop.simps [simp del]
declare sha1_block.simps [simp del]

lemma js_and_int: "js_and a b = signed_take_bit 31 (a AND b)"
  by (simp add: js_and_def toInt32_def word_wi_log_defs sint_sbintrunc')

lemma js_or_int: "js_or a b = signed_take_bit 31 (a OR b)"
  by (simp add: js_or_def toInt32_def word_wi_log_defs sint_sbintrunc')

lemma js_shl_int: "js_shl a n = signed_take_bit 31 (push_bit (n mod 32) a)"
  by (simp add: js_shl_def toInt32_def sint_sbintrunc' flip: of_int_push_bit)

lemma js_ushr_int: "js_ushr a n = drop_bit (n mod 32) (take_bit 32 a)"
  by (simp add: js_ushr_def toInt32_def uint_word_of_int_eq unsigned_drop_bit_eq)

lemma int31_self: "0 \<le> k \<Longrightarrow> k < 2 ^ 31 \<Longrightarrow> signed_take_bit 31 k = (k::int)"
  by (rule signed_take_bit_int_eq_self) simp_all

lemma js_and_mask: "js_and x (mask n) = x mod 2 ^ n" if "n \<le> 31"
proof -
  have "take_bit n x < 2 ^ n" by simp
  also have "(2::int) ^ n \<le> 2 ^ 31" using that by (intro power_increasing) simp_all
  finally have "take_bit n x < 2 ^ 31" .
  then show ?thesis
    by (simp add: js_and_int int31_self take_bit_eq_mod flip: take_bit_eq_mask)
qed

lemma js_and_255: "js_and x 255 = x mod 256"
  using js_and_mask [of 8 x] by (simp add: mask_eq_exp_minus_1)

lemma js_and_127: "js_and x 127 = x mod 128"
  using js_and_mask [of 7 x] by (simp add: mask_eq_exp_minus_1)

lemma js_and_15: "js_and x 15 = x mod 16"
  using js_and_mask [of 4 x] by (simp add: mask_eq_exp_minus_1)

lemma js_shl_small: "js_shl a n = a * 2 ^ n" if "0 \<le> a" "a * 2 ^ n < 2 ^ 31" "n < 32"
  using that by (simp add: js_shl_int int31_self push_bit_eq_mult)

lemma or_push_bit_add: "push_bit n z OR y = push_bit n z + y" if "0 \<le> y" "y < 2 ^ n" for y z :: int
proof -
  have "take_bit n y = y" using that by (simp add: take_bit_int_eq_self)
  then show ?thesis
    using concat_bit_eq [of n y z] by (simp add: concat_bit_def ac_simps)
qed

lemma js_or_add: "js_or (z * 2 ^ n) y = z * 2 ^ n + y"
  if "0 \<le> y" "y < 2 ^ n" "0 \<le> z" "z * 2 ^ n + y < 2 ^ 31"
proof -
  have "z * 2 ^ n OR y = z * 2 ^ n + y"
    using or_push_bit_add [OF that(1,2), of z] by (simp add: push_bit_eq_mult)
  moreover have "0 \<le> z * 2 ^ n + y" using that by simp
  ultimately show ?thesis using that(4) by (simp add: js_or_int int31_self)
qed

lemma js_ushr_8: "js_ushr a 8 = (a mod 2 ^ 32) div 256"
  by (simp add: js_ushr_int drop_bit_eq_div take_bit_eq_mod)

lemma be31:
  fixes d0 d1 d2 d3 :: int
  assumes "0 \<le> d0" "d0 < 256" "0 \<le> d1" "d1 < 256" "0 \<le> d2" "d2 < 256" "0 \<le> d3" "d3 < 256"
  shows "js_or (js_or (js_or (js_shl (js_and d0 0x7f) 24) (js_shl (js_and d1 0xff) 16))
           (js_shl (js_and d2 0xff) 8)) (js_and d3 0xff)
         = (d0 mod 128) * 2 ^ 24 + d1 * 2 ^ 16 + d2 * 2 ^ 8 + d3"
proof -
  let ?a = "d0 mod 128"
  have a: "0 \<le> ?a" "?a < 128" by simp_all
  have s0: "js_shl (js_and d0 0x7f) 24 = ?a * 2 ^ 24"
    using a by (simp add: js_and_127 js_shl_small)
  have s1: "js_shl (js_and d1 0xff) 16 = d1 * 2 ^ 16"
    using assms by (simp add: js_and_255 js_shl_small)
  have s2: "js_shl (js_and d2 0xff) 8 = d2 * 2 ^ 8"
    using assms by (simp add: js_and_255 js_shl_small)
  have s3: "js_and d3 0xff = d3"
    using assms by (simp add: js_and_255)
  have o1: "js_or (?a * 2 ^ 24) (d1 * 2 ^ 16) = ?a * 2 ^ 24 + d1 * 2 ^ 16"
    using a assms by (intro js_or_add) simp_all
  have e1: "?a * 2 ^ 24 + d1 * 2 ^ 16 = (?a * 2 ^ 8 + d1) * 2 ^ 16" by simp
  have o2: "js_or ((?a * 2 ^ 8 + d1) * 2 ^ 16) (d2 * 2 ^ 8) = (?a * 2 ^ 8 + d1) * 2 ^ 16 + d2 * 2 ^ 8"
    using a assms by (intro js_or_add) simp_all
  have e2: "(?a * 2 ^ 8 + d1) * 2 ^ 16 + d2 * 2 ^ 8 = (?a * 2 ^ 16 + d1 * 2 ^ 8 + d2) * 2 ^ 8" by simp
  have o3: "js_or ((?a * 2 ^ 16 + d1 * 2 ^ 8 + d2) * 2 ^ 8) d3 = (?a * 2 ^ 16 + d1 * 2 ^ 8 + d2) * 2 ^ 8 + d3"
    using a assms by (intro js_or_add) simp_all
  show ?thesis
    unfolding s0 s1 s2 s3 o1 e1 o2 e2 o3 by simp
qed

section \<open>Decimal rendering and dynamic truncation\<close>


lemma of_char_digitChar: "d < 10 \<Longrightarrow> (of_char (digitChar d) :: nat) = 48 + d"
  by (simp add: digitChar_def)

lemma isDigit_digitChar: "d < 10 \<Longrightarrow> isDigit (digitChar d)"
  by (simp add: isDigit_def of_char_digitChar)

lemma natToString_digits: "list_all isDigit (natToString n)"
proof (induction n rule: natToString.induct)
  case (1 n)
  show ?case
  proof (cases "n < 10")
    case True
    then show ?thesis by (simp add: natToString.simps [of n] isDigit_digitChar)
  next
    case False
    with 1 show ?thesis by (simp add: natToString.simps [of n] isDigit_digitChar)
  qed
qed

lemma decimalValue_snoc: "decimalValue (s @ [c]) = 10 * decimalValue s + (of_char c - 48)"
  by (simp add: decimalValue_def)

lemma decimalValue_natToString: "decimalValue (natToString n) = n"
proof (induction n rule: natToString.induct)
  case (1 n)
  show ?case
  proof (cases "n < 10")
    case True
    then show ?thesis
      by (simp add: natToString.simps [of n] decimalValue_def of_char_digitChar)
  next
    case False
    with 1 show ?thesis
      by (simp add: natToString.simps [of n] decimalValue_snoc of_char_digitChar)
  qed
qed

lemma length_natToString: "n < 10 ^ d \<Longrightarrow> 1 \<le> d \<Longrightarrow> length (natToString n) \<le> d"
proof (induction n arbitrary: d rule: natToString.induct)
  case (1 n)
  show ?case
  proof (cases "n < 10")
    case True
    with 1 show ?thesis by (simp add: natToString.simps [of n])
  next
    case False
    obtain e where d: "d = Suc e" using "1.prems" by (cases d) auto
    have "e \<noteq> 0" using False "1.prems" d by (cases e) auto
    moreover have "n div 10 < 10 ^ e" using "1.prems" d by (simp add: less_mult_imp_div_less mult.commute)
    ultimately have "length (natToString (n div 10)) \<le> e" using "1.IH" [of e] False by simp
    then show ?thesis using False d by (simp add: natToString.simps [of n])
  qed
qed

lemma decimalValue_zeros: "decimalValue (replicate k CHR ''0'' @ s) = decimalValue s"
  by (induction k) (simp_all add: decimalValue_def)

lemma padStart_digits:
  assumes "n < 10 ^ d" "1 \<le> d"
  shows "length (padStart (natToString n) d CHR ''0'') = d"
    and "list_all isDigit (padStart (natToString n) d CHR ''0'')"
    and "decimalValue (padStart (natToString n) d CHR ''0'') = n"
proof -
  have l: "length (natToString n) \<le> d" using assms by (rule length_natToString)
  have z: "isDigit CHR ''0''" by (simp add: isDigit_def)
  show "length (padStart (natToString n) d CHR ''0'') = d"
    using l by (simp add: padStart_def)
  show "list_all isDigit (padStart (natToString n) d CHR ''0'')"
    using z natToString_digits [of n] by (simp add: padStart_def list_all_iff)
  show "decimalValue (padStart (natToString n) d CHR ''0'') = n"
    by (simp add: padStart_def decimalValue_zeros decimalValue_natToString)
qed

lemma js_rem_nonneg: "0 \<le> a \<Longrightarrow> 0 < b \<Longrightarrow> js_rem a b = a mod b"
  by (cases "a = 0") (simp_all add: js_rem_def)

lemma uint_byte_bounds: "0 \<le> uint (b :: byte)" "uint (b :: byte) < 256"
  using uint_lt2p [of b] by simp_all

lemma uint_and_127: "uint ((b :: byte) AND 0x7f) = uint b mod 128"
proof -
  have "uint (b AND 0x7f) = uint b AND 127" by (simp add: uint_and)
  also have "\<dots> = take_bit 7 (uint b)" by (simp add: take_bit_eq_mask mask_eq_exp_minus_1)
  finally show ?thesis by (simp add: take_bit_eq_mod)
qed

lemma uint_and_15: "uint ((b :: byte) AND 0x0f) = uint b mod 16"
proof -
  have "uint (b AND 0x0f) = uint b AND 15" by (simp add: uint_and)
  also have "\<dots> = take_bit 4 (uint b)" by (simp add: take_bit_eq_mask mask_eq_exp_minus_1)
  finally show ?thesis by (simp add: take_bit_eq_mod)
qed

lemma dynamicOffset_eq:
  assumes "digest \<noteq> []"
  shows "dynamicOffset digest = int (unat (last digest AND 0x0f))"
proof -
  have "byteAt digest (int (length digest) - 1) = uint (last digest)"
    using assms by (simp add: byteAt_def last_conv_nth nat_diff_distrib')
  then show ?thesis
    by (simp add: dynamicOffset_def js_and_15 uint_and_15)
qed

lemma dynamicBinary_eq:
  assumes "20 \<le> length digest"
  shows "dynamicBinary digest =
     (let offset = unat (last digest AND 0x0f)
      in uint (digest ! offset AND 0x7f) * 2 ^ 24 + uint (digest ! (offset + 1)) * 2 ^ 16
         + uint (digest ! (offset + 2)) * 2 ^ 8 + uint (digest ! (offset + 3)))"
proof -
  define offset where "offset = unat (last digest AND 0x0f)"
  have ne: "digest \<noteq> []" using assms by auto
  have "int offset = uint (last digest) mod 16"
    by (simp add: offset_def uint_and_15)
  then have "int offset < 16" by simp
  then have lt: "offset < 16" by simp
  have off: "dynamicOffset digest = int offset"
    using dynamicOffset_eq [OF ne] by (simp add: offset_def)
  have at: "byteAt digest (int offset + int k) = uint (digest ! (offset + k))" if "k < 4" for k
    using that lt assms by (simp add: byteAt_def nat_add_distrib)
  have at0: "byteAt digest (int offset) = uint (digest ! offset)"
    using at [of 0] by simp
  have at1: "byteAt digest (int offset + 1) = uint (digest ! (offset + 1))"
    using at [of 1] by simp
  have at2: "byteAt digest (int offset + 2) = uint (digest ! (offset + 2))"
    using at [of 2] by simp
  have at3: "byteAt digest (int offset + 3) = uint (digest ! (offset + 3))"
    using at [of 3] by simp
  show ?thesis
    unfolding dynamicBinary_def off Let_def at0 at1 at2 at3 offset_def [symmetric]
    by (simp add: be31 uint_byte_bounds uint_and_127)
qed

lemma dynamicBinary_bounds:
  assumes "20 \<le> length digest"
  shows "0 \<le> dynamicBinary digest" "dynamicBinary digest < 2 ^ 31"
proof -
  define offset where "offset = unat (last digest AND 0x0f)"
  define a where "a = uint (digest ! offset AND 0x7f)"
  define b where "b = uint (digest ! (offset + 1))"
  define c where "c = uint (digest ! (offset + 2))"
  define d where "d = uint (digest ! (offset + 3))"
  have eq: "dynamicBinary digest = a * 2 ^ 24 + b * 2 ^ 16 + c * 2 ^ 8 + d"
    using dynamicBinary_eq [OF assms] by (simp add: Let_def offset_def a_def b_def c_def d_def)
  have "0 \<le> a" "a < 128" by (simp_all add: a_def uint_and_127)
  moreover have "0 \<le> b" "b < 256" "0 \<le> c" "c < 256" "0 \<le> d" "d < 256"
    by (simp_all add: b_def c_def d_def uint_byte_bounds)
  ultimately show "0 \<le> dynamicBinary digest" "dynamicBinary digest < 2 ^ 31"
    unfolding eq by simp_all
qed

lemma generateHOTP_truncation:
  assumes "20 \<le> length (hmac alg key (counterBuffer counter))" and "1 \<le> digs"
  shows "(let digest = hmac alg key (counterBuffer counter);
              offset = unat (last digest AND 0x0f);
              binary = uint (digest ! offset AND 0x7f) * 2 ^ 24 + uint (digest ! (offset + 1)) * 2 ^ 16
                       + uint (digest ! (offset + 2)) * 2 ^ 8 + uint (digest ! (offset + 3));
              code = generateHOTP hmac key counter alg digs
          in offset + 3 < length digest \<and> 0 \<le> binary \<and> binary < 2 ^ 31
             \<and> length code = digs \<and> list_all isDigit code
             \<and> int (decimalValue code) = binary mod 10 ^ digs)"
proof -
  define digest where "digest = hmac alg key (counterBuffer counter)"
  define offset where "offset = unat (last digest AND 0x0f)"
  define binary where "binary = dynamicBinary digest"
  define n where "n = nat (binary mod 10 ^ digs)"
  have len: "20 \<le> length digest" using assms(1) by (simp add: digest_def)
  have "int offset = uint (last digest) mod 16" by (simp add: offset_def uint_and_15)
  then have "int offset < 16" by simp
  then have off: "offset + 3 < length digest" using len by simp
  have b: "0 \<le> binary" "binary < 2 ^ 31"
    using dynamicBinary_bounds [OF len] by (simp_all add: binary_def)
  have beq: "binary = uint (digest ! offset AND 0x7f) * 2 ^ 24 + uint (digest ! (offset + 1)) * 2 ^ 16
                       + uint (digest ! (offset + 2)) * 2 ^ 8 + uint (digest ! (offset + 3))"
    using dynamicBinary_eq [OF len] by (simp add: binary_def Let_def offset_def)
  have pos: "(0::int) < 10 ^ digs" by simp
  have otp: "js_rem binary (10 ^ digs) = binary mod 10 ^ digs"
    using b(1) pos by (rule js_rem_nonneg)
  have nn: "0 \<le> binary mod 10 ^ digs" using pos by simp
  have "binary mod 10 ^ digs < 10 ^ digs" using pos by simp
  then have "int n < int (10 ^ digs)" using nn by (simp add: n_def)
  then have nlt: "n < 10 ^ digs" by linarith
  have nneg: "\<not> binary mod 10 ^ digs < 0" using nn by linarith
  have code: "generateHOTP hmac key counter alg digs = padStart (natToString n) digs CHR ''0''"
    using nneg by (simp add: generateHOTP_def Let_def digest_def [symmetric] binary_def [symmetric]
        otp numberToString_def n_def)
  have "int (decimalValue (padStart (natToString n) digs CHR ''0'')) = binary mod 10 ^ digs"
    using padStart_digits(3) [OF nlt assms(2)] nn by (simp add: n_def)
  then show ?thesis
    unfolding Let_def digest_def [symmetric] offset_def [symmetric] beq [symmetric] code
    using off b padStart_digits(1,2) [OF nlt assms(2)] by simp
qed

lemma js_ushr_8_small: "0 \<le> a \<Longrightarrow> a < 2 ^ 32 \<Longrightarrow> js_ushr a 8 = a div 256"
  by (simp add: js_ushr_8)

lemma counterBuffer_bytes:
  "counterBuffer counter =
     (let c = counter mod 4294967296
      in [0, 0, 0, 0, word_of_int (c div 16777216), word_of_int (c div 65536),
          word_of_int (c div 256), word_of_int c])"
proof -
  define c where "c = counter mod 4294967296"
  have c: "0 \<le> c" "c < 4294967296" by (simp_all add: c_def)
  have u1: "js_ushr counter 8 = c div 256" by (simp add: js_ushr_8 c_def)
  have u2: "js_ushr (c div 256) 8 = c div 65536" using c by (simp add: js_ushr_8_small)
  have u3: "js_ushr (c div 65536) 8 = c div 16777216" using c by (simp add: js_ushr_8_small)
  have u4: "js_ushr (c div 16777216) 8 = 0" using c by (simp add: js_ushr_8_small)
  have u0: "js_ushr 0 8 = 0" by (simp add: js_ushr_8)
  have a: "(word_of_int (js_and x 0xff) :: byte) = word_of_int x" for x
    by (simp add: js_and_255 word_uint_eq_iff uint_word_of_int take_bit_eq_mod)
  have wc: "(word_of_int counter :: byte) = word_of_int c"
    by (simp add: c_def word_uint_eq_iff uint_word_of_int take_bit_eq_mod mod_mod_cancel)
  have e: "(8::nat) = Suc (Suc (Suc (Suc (Suc (Suc (Suc (Suc 0)))))))" by simp
  show ?thesis
    unfolding counterBuffer_def Let_def c_def [symmetric] e
    by (simp add: a u1 u2 u3 u4 u0 wc)
qed

lemma bigEndian64_bytes:
  "bigEndian64 c = [word_of_int (c div 72057594037927936), word_of_int (c div 281474976710656),
     word_of_int (c div 1099511627776), word_of_int (c div 4294967296),
     word_of_int (c div 16777216), word_of_int (c div 65536), word_of_int (c div 256),
     word_of_int c]"
proof -
  have m: "(word_of_int (x mod 256) :: byte) = word_of_int x" for x
    by (simp add: word_uint_eq_iff uint_word_of_int take_bit_eq_mod)
  have u: "[0..<8] = [0, 1, 2, 3, 4, 5, 6, 7]" by (simp add: upt_rec)
  show ?thesis by (simp add: bigEndian64_def u m)
qed

lemma counterBuffer_low32: "counterBuffer counter = bigEndian64 (counter mod 4294967296)"
proof -
  define c where "c = counter mod 4294967296"
  have c: "0 \<le> c" "c < 4294967296" by (simp_all add: c_def)
  have "c div 72057594037927936 = 0" "c div 281474976710656 = 0" "c div 1099511627776 = 0"
    "c div 4294967296 = 0"
    using c by simp_all
  then show ?thesis
    by (simp add: counterBuffer_bytes bigEndian64_bytes Let_def c_def [symmetric])
qed

lemma counterBuffer_below_2_32:
  "0 \<le> counter \<Longrightarrow> counter < 4294967296 \<Longrightarrow> counterBuffer counter = bigEndian64 counter"
  by (simp add: counterBuffer_low32)

section \<open>Codes and the verification loop\<close>

lemma opt_timestamp_update [simp]:
  "optAlgorithm (options\<lparr>timestamp := x\<rparr>) = optAlgorithm options"
  "optDigits (options\<lparr>timestamp := x\<rparr>) = optDigits options"
  "optPeriod (options\<lparr>timestamp := x\<rparr>) = optPeriod options"
  "optWindow (options\<lparr>timestamp := x\<rparr>) = optWindow options"
  "optTimestamp now (options\<lparr>timestamp := Some t\<rparr>) = t"
  by (simp_all add: optAlgorithm_def optDigits_def optPeriod_def optWindow_def optTimestamp_def)

lemma opt_window_update [simp]:
  "optAlgorithm (options\<lparr>window := x\<rparr>) = optAlgorithm options"
  "optDigits (options\<lparr>window := x\<rparr>) = optDigits options"
  "optPeriod (options\<lparr>window := x\<rparr>) = optPeriod options"
  "optTimestamp now (options\<lparr>window := x\<rparr>) = optTimestamp now options"
  "optWindow (options\<lparr>window := Some w\<rparr>) = w"
  by (simp_all add: optAlgorithm_def optDigits_def optPeriod_def optWindow_def optTimestamp_def)

lemma opt_explicit [simp]:
  "optAlgorithm \<lparr>algorithm = Some a, digits = d, period = p, timestamp = t, window = w\<rparr> = a"
  "optDigits \<lparr>algorithm = a', digits = Some n, period = p, timestamp = t, window = w\<rparr> = n"
  "optPeriod \<lparr>algorithm = a', digits = d, period = Some q, timestamp = t, window = w\<rparr> = q"
  "optTimestamp now \<lparr>algorithm = a', digits = d, period = p, timestamp = Some ts, window = w\<rparr> = ts"
  by (simp_all add: optAlgorithm_def optDigits_def optPeriod_def optTimestamp_def)

text \<open>The code that \<open>generateTOTP\<close> returns for a key, and when it returns one.\<close>

lemma generateTOTP_key:
  assumes "\<not> falsy secret" "secretBytes secret = Inr key"
  shows "generateTOTP hmac now secret options =
     Inr (generateHOTP hmac key (timeCounter (optTimestamp now options) (optPeriod options))
            (optAlgorithm options) (optDigits options))"
  using assms by (simp add: generateTOTP_def)

lemma generateTOTP_Inr_key:
  assumes "generateTOTP hmac now secret options = Inr code"
  obtains key where "\<not> falsy secret" "secretBytes secret = Inr key"
  using assms by (auto simp: generateTOTP_def split: if_splits sum.splits)

lemma generateTOTP_text_errors:
  "generateTOTP hmac now (TextSecret []) options = Inl MissingSecret"
  "generateTOTP hmac now NoSecret options = Inl MissingSecret"
  "s \<noteq> [] \<Longrightarrow> decodeBase32 s = Inl e \<Longrightarrow>
     generateTOTP hmac now (TextSecret s) options = Inl (InvalidSecret e)"
  by (simp_all add: generateTOTP_def)

lemma generateTOTP_bytes:
  "generateTOTP hmac now (BytesSecret b) options =
     Inr (generateHOTP hmac b (timeCounter (optTimestamp now options) (optPeriod options))
            (optAlgorithm options) (optDigits options))"
  by (simp add: generateTOTP_def)

lemma generateTOTP_error_independent:
  assumes "generateTOTP hmac now secret options = Inl e"
  shows "generateTOTP hmac' now' secret options' = Inl e"
  using assms by (auto simp: generateTOTP_def split: if_splits sum.splits)

lemma verifyLoop_error:
  assumes "generateTOTP hmac now secret options = Inl e" "i \<le> win"
  shows "verifyLoop hmac now token secret alg digs per ts win i = Inl e"
proof -
  have "generateTOTP hmac now secret
          \<lparr>algorithm = Some alg, digits = Some digs, period = Some per,
           timestamp = Some (ts + i * per * 1000), window = None\<rparr> = Inl e"
    using assms(1) by (rule generateTOTP_error_independent)
  then show ?thesis
    using assms(2) by (simp add: verifyLoop.simps [of _ _ _ _ _ _ _ _ _ i])
qed

lemma verifyLoop_find:
  assumes "\<not> falsy secret" "secretBytes secret = Inr key"
  shows "verifyLoop hmac now token secret alg digs per ts win i =
     Inr (case find (\<lambda>j. generateHOTP hmac key (timeCounter (ts + j * per * 1000) per) alg digs = token)
                 [i..win] of
            Some j \<Rightarrow> \<lparr>valid = True, delta = Some j\<rparr>
          | None \<Rightarrow> \<lparr>valid = False, delta = None\<rparr>)"
  using assms
proof (induction hmac now token secret alg digs per ts win i rule: verifyLoop.induct)
  case (1 hmac now token secret alg digs per ts win i)
  show ?case
  proof (cases "i \<le> win")
    case False
    then show ?thesis
      by (simp add: verifyLoop.simps [of _ _ _ _ _ _ _ _ _ i])
  next
    case True
    have gen: "generateTOTP hmac now secret
          \<lparr>algorithm = Some alg, digits = Some digs, period = Some per,
           timestamp = Some (ts + i * per * 1000), window = None\<rparr>
        = Inr (generateHOTP hmac key (timeCounter (ts + i * per * 1000) per) alg digs)"
      using "1.prems" by (simp add: generateTOTP_key)
    have up: "[i..win] = i # [i + 1..win]" using True by (simp add: upto_rec1)
    show ?thesis
    proof (cases "generateHOTP hmac key (timeCounter (ts + i * per * 1000) per) alg digs = token")
      case True
      with \<open>i \<le> win\<close> gen up show ?thesis
        by (simp add: verifyLoop.simps [of _ _ _ _ _ _ _ _ _ i])
    next
      case False
      have "verifyLoop hmac now token secret alg digs per ts win i =
            verifyLoop hmac now token secret alg digs per ts win (i + 1)"
        using \<open>i \<le> win\<close> gen False by (simp add: verifyLoop.simps [of _ _ _ _ _ _ _ _ _ i])
      also have "\<dots> = Inr (case find (\<lambda>j. generateHOTP hmac key (timeCounter (ts + j * per * 1000) per) alg digs = token)
                 [i + 1..win] of
            Some j \<Rightarrow> \<lparr>valid = True, delta = Some j\<rparr>
          | None \<Rightarrow> \<lparr>valid = False, delta = None\<rparr>)"
        using "1.IH" [OF \<open>i \<le> win\<close> refl gen False "1.prems"] .
      finally show ?thesis using False up by simp
    qed
  qed
qed

lemma upto_window_1: "[- 1..1::int] = [- 1, 0, 1]"
  by (simp add: upto_rec1)

lemma goodFormat: 
  "token \<noteq> [] \<Longrightarrow> length token = digs \<Longrightarrow> list_all isDigit token \<Longrightarrow> \<not> badFormat token digs"
  by (simp add: badFormat_def)

lemma digit_range:
  "48 \<le> n \<Longrightarrow> n \<le> 57 \<Longrightarrow>
     n \<in> {48 :: nat, 49, 50, 51, 52, 53, 54, 55, 56, 57}"
  by simp presburger

lemma isDigit_iff: "isDigit c \<longleftrightarrow> c \<in> set ''0123456789''"
proof
  assume "isDigit c"
  then have "(of_char c :: nat) \<in> {48, 49, 50, 51, 52, 53, 54, 55, 56, 57}"
    unfolding isDigit_def by (intro digit_range) simp_all
  then have "char_of (of_char c :: nat) \<in> char_of ` {48 :: nat, 49, 50, 51, 52, 53, 54, 55, 56, 57}"
    by (rule imageI)
  then show "c \<in> set ''0123456789''" by (auto simp: char_of_eq_iff)
next
  assume "c \<in> set ''0123456789''"
  then show "isDigit c" by (auto simp: isDigit_def)
qed

lemma verifyTOTP_window:
  assumes "generateTOTP hmac now secret options = Inr code"
    and "token \<noteq> []" "length token = optDigits options" "list_all isDigit token"
  shows "verifyTOTP hmac now token secret options =
     Inr (case find (\<lambda>i. generateTOTP hmac now secret
                  (options\<lparr>timestamp := Some (optTimestamp now options + i * optPeriod options * 1000)\<rparr>)
                = Inr token) [- optWindow options..optWindow options] of
            Some i \<Rightarrow> \<lparr>valid = True, delta = Some i\<rparr>
          | None \<Rightarrow> \<lparr>valid = False, delta = None\<rparr>)"
proof -
  obtain key where k: "\<not> falsy secret" "secretBytes secret = Inr key"
    using assms(1) by (rule generateTOTP_Inr_key)
  have fmt: "\<not> badFormat token (optDigits options)"
    using assms(2-4) by (rule goodFormat)
  show ?thesis
    using fmt by (simp add: verifyTOTP_def verifyLoop_find [OF k] generateTOTP_key [OF k])
qed

lemma byteAt_bounds: "0 \<le> byteAt d i" "byteAt d i < 256"
  by (simp_all add: byteAt_def uint_byte_bounds)

lemma dynamicBinary_range: "0 \<le> dynamicBinary digest" "dynamicBinary digest < 2 ^ 31"
proof -
  define off where "off = dynamicOffset digest"
  define a where "a = byteAt digest off mod 128"
  define b where "b = byteAt digest (off + 1)"
  define c where "c = byteAt digest (off + 2)"
  define d where "d = byteAt digest (off + 3)"
  have eq: "dynamicBinary digest = a * 2 ^ 24 + b * 2 ^ 16 + c * 2 ^ 8 + d"
    unfolding dynamicBinary_def Let_def off_def [symmetric]
    by (simp add: be31 byteAt_bounds a_def b_def c_def d_def)
  have "0 \<le> a" "a < 128" by (simp_all add: a_def)
  moreover have "0 \<le> b" "b < 256" "0 \<le> c" "c < 256" "0 \<le> d" "d < 256"
    by (simp_all add: b_def c_def d_def byteAt_bounds)
  ultimately show "0 \<le> dynamicBinary digest" "dynamicBinary digest < 2 ^ 31"
    unfolding eq by simp_all
qed

lemma generateHOTP_padded:
  "generateHOTP hmac key counter alg digs =
     padStart (natToString (nat (dynamicBinary (hmac alg key (counterBuffer counter)) mod 10 ^ digs)))
       digs CHR ''0''"
proof -
  define binary where "binary = dynamicBinary (hmac alg key (counterBuffer counter))"
  have b: "0 \<le> binary" using dynamicBinary_range(1) by (simp add: binary_def)
  have pos: "(0::int) < 10 ^ digs" by simp
  have otp: "js_rem binary (10 ^ digs) = binary mod 10 ^ digs"
    using b pos by (rule js_rem_nonneg)
  have "0 \<le> binary mod 10 ^ digs" using pos by simp
  then have nneg: "\<not> binary mod 10 ^ digs < 0" by linarith
  show ?thesis
    using nneg by (simp add: generateHOTP_def Let_def binary_def [symmetric] otp numberToString_def)
qed

lemma generateHOTP_format:
  assumes "1 \<le> digs"
  shows "length (generateHOTP hmac key counter alg digs) = digs"
    and "list_all isDigit (generateHOTP hmac key counter alg digs)"
    and "generateHOTP hmac key counter alg digs \<noteq> []"
proof -
  define binary where "binary = dynamicBinary (hmac alg key (counterBuffer counter))"
  define n where "n = nat (binary mod 10 ^ digs)"
  have pos: "(0::int) < 10 ^ digs" by simp
  have nn: "0 \<le> binary mod 10 ^ digs" using pos by simp
  have "binary mod 10 ^ digs < 10 ^ digs" using pos by simp
  then have "int n < int (10 ^ digs)" using nn by (simp add: n_def)
  then have nlt: "n < 10 ^ digs" by linarith
  have code: "generateHOTP hmac key counter alg digs = padStart (natToString n) digs CHR ''0''"
    by (simp add: generateHOTP_padded n_def binary_def)
  show l: "length (generateHOTP hmac key counter alg digs) = digs"
    unfolding code using nlt assms by (rule padStart_digits(1))
  show "list_all isDigit (generateHOTP hmac key counter alg digs)"
    unfolding code using nlt assms by (rule padStart_digits(2))
  show "generateHOTP hmac key counter alg digs \<noteq> []"
    using l assms by auto
qed

lemma generateTOTP_format:
  assumes "generateTOTP hmac now secret options = Inr code" "1 \<le> optDigits options"
  shows "code \<noteq> []" "length code = optDigits options" "list_all isDigit code"
proof -
  obtain key where k: "\<not> falsy secret" "secretBytes secret = Inr key"
    using assms(1) by (rule generateTOTP_Inr_key)
  have c: "code = generateHOTP hmac key (timeCounter (optTimestamp now options) (optPeriod options))
            (optAlgorithm options) (optDigits options)"
    using assms(1) by (simp add: generateTOTP_key [OF k])
  show "code \<noteq> []" "length code = optDigits options" "list_all isDigit code"
    unfolding c using assms(2) by (rule generateHOTP_format(3) generateHOTP_format(1) generateHOTP_format(2))+
qed

section \<open>Base32 decoding\<close>

lemma two_seven_range: "50 \<le> n \<Longrightarrow> n \<le> 55 \<Longrightarrow> n \<in> {50 :: nat, 51, 52, 53, 54, 55}"
  by simp presburger

lemma letter_range_lo:
  "65 \<le> n \<Longrightarrow> n \<le> 77 \<Longrightarrow> n \<in> {65 :: nat, 66, 67, 68, 69, 70, 71, 72, 73, 74, 75, 76, 77}"
  by simp presburger

lemma letter_range_hi:
  "78 \<le> n \<Longrightarrow> n \<le> 90 \<Longrightarrow> n \<in> {78 :: nat, 79, 80, 81, 82, 83, 84, 85, 86, 87, 88, 89, 90}"
  by simp presburger

lemma isBase32Char_iff: "isBase32Char c \<longleftrightarrow> c \<in> set alphabet"
proof
  assume a: "isBase32Char c"
  have c: "c = char_of n" if "(of_char c :: nat) = n" for n
    using that by auto
  from a consider (lo) "65 \<le> (of_char c :: nat)" "(of_char c :: nat) \<le> 77"
    | (hi) "78 \<le> (of_char c :: nat)" "(of_char c :: nat) \<le> 90"
    | (digit) "50 \<le> (of_char c :: nat)" "(of_char c :: nat) \<le> 55"
    unfolding isBase32Char_def by atomize_elim arith
  then show "c \<in> set alphabet"
  proof cases
    case lo
    then have "(of_char c :: nat) \<in> {65, 66, 67, 68, 69, 70, 71, 72, 73, 74, 75, 76, 77}"
      by (rule letter_range_lo)
    then show ?thesis
      unfolding alphabet_def
      by (simp only: insert_iff empty_iff) (elim disjE FalseE; drule c; simp add: char_of_eq_iff)
  next
    case hi
    then have "(of_char c :: nat) \<in> {78, 79, 80, 81, 82, 83, 84, 85, 86, 87, 88, 89, 90}"
      by (rule letter_range_hi)
    then show ?thesis
      unfolding alphabet_def
      by (simp only: insert_iff empty_iff) (elim disjE FalseE; drule c; simp add: char_of_eq_iff)
  next
    case digit
    then have "(of_char c :: nat) \<in> {50, 51, 52, 53, 54, 55}"
      by (rule two_seven_range)
    then show ?thesis
      unfolding alphabet_def
      by (simp only: insert_iff empty_iff) (elim disjE FalseE; drule c; simp add: char_of_eq_iff)
  qed
next
  assume "c \<in> set alphabet"
  then show "isBase32Char c"
    unfolding alphabet_def
    by (simp only: list.set insert_iff empty_iff) (elim disjE FalseE; simp add: isBase32Char_def)
qed

lemma indexOf_alphabet:
  assumes "c \<in> set alphabet"
  shows "indexOf alphabet c = int (symbolValue c) \<and> symbolValue c < 32"
  using assms unfolding alphabet_def
  by (simp only: list.set insert_iff empty_iff) (elim disjE; simp add: indexOf_def symbolValue_def)

lemma toInt32_js_or: "toInt32 (js_or a b) = toInt32 a OR toInt32 b"
  by (simp add: js_or_def toInt32_def)

lemma toInt32_js_shl: "n < 32 \<Longrightarrow> toInt32 (js_shl a n) = push_bit n (toInt32 a)"
  by (simp add: js_shl_def toInt32_def)

lemma toInt32_step:
  assumes "toInt32 val = toInt32 (int N)" "v < 32"
  shows "toInt32 (js_or (js_shl val 5) (int v)) = toInt32 (int (32 * N + v))"
proof -
  have "push_bit 5 (int N) OR int v = push_bit 5 (int N) + int v"
    using assms(2) by (intro or_push_bit_add) simp_all
  then have eq: "push_bit 5 (int N) OR int v = int (32 * N + v)"
    by (simp add: push_bit_eq_mult)
  have "toInt32 (js_or (js_shl val 5) (int v)) = push_bit 5 (toInt32 val) OR toInt32 (int v)"
    by (simp add: toInt32_js_or toInt32_js_shl)
  also have "\<dots> = push_bit 5 (toInt32 (int N)) OR toInt32 (int v)"
    by (simp only: assms(1))
  also have "\<dots> = toInt32 (push_bit 5 (int N) OR int v)"
    unfolding toInt32_def by (simp only: push_bit_of_int word_wi_log_defs)
  also have "\<dots> = toInt32 (int (32 * N + v))"
    by (simp only: eq)
  finally show ?thesis .
qed

lemma out_byte:
  assumes "toInt32 val = toInt32 (int N)" "k \<le> 4"
  shows "unat (word_of_int (js_and (js_ushr val k) 0xff) :: byte) = (N div 2 ^ k) mod 256"
proof -
  have k: "k mod 32 = k" using assms(2) by simp
  have "take_bit 32 val = take_bit 32 (int N)"
    using assms(1) unfolding toInt32_def word_of_int_eq_iff by simp
  then have u: "js_ushr val k = drop_bit k (take_bit 32 (int N))"
    by (simp add: js_ushr_int k)
  have "take_bit 8 (drop_bit k (take_bit 32 (int N))) = take_bit 8 (drop_bit k (int N))"
    using assms(2) by (simp add: take_bit_drop_bit min_def)
  also have "\<dots> = int ((N div 2 ^ k) mod 256)"
    by (simp add: take_bit_eq_mod drop_bit_eq_div zdiv_int zmod_int)
  finally have t: "drop_bit k (take_bit 32 (int N)) mod 256 = int ((N div 2 ^ k) mod 256)"
    by (simp add: take_bit_eq_mod)
  have "unat (word_of_nat ((N div 2 ^ k) mod 256) :: byte) = (N div 2 ^ k) mod 256"
    by (simp add: unsigned_of_nat take_bit_eq_mod)
  then show ?thesis
    by (simp add: u js_and_255 t)
qed

lemma bytesValue_snoc: "bytesValue (bs @ [b]) = 256 * bytesValue bs + unat b"
  by (simp add: bytesValue_def)

lemma decodeLoop_value:
  assumes "\<forall>c\<in>set cs. c \<in> set alphabet" "bits < 8" "toInt32 val = toInt32 (int N)"
    and "bytesValue result = N div 2 ^ bits"
  shows "bytesValue (decodeLoop cs bits val result)
           = foldl (\<lambda>v c. 32 * v + symbolValue c) N cs div 2 ^ ((bits + 5 * length cs) mod 8)
       \<and> length (decodeLoop cs bits val result) = length result + (bits + 5 * length cs) div 8"
  using assms
proof (induction cs arbitrary: bits val N result)
  case Nil
  then show ?case by simp
next
  case (Cons c cs)
  define v where "v = symbolValue c"
  define N' where "N' = 32 * N + v"
  define val' where "val' = js_or (js_shl val 5) (indexOf alphabet c)"
  have c: "c \<in> set alphabet" and cs: "\<forall>c\<in>set cs. c \<in> set alphabet"
    using Cons.prems(1) by simp_all
  have idx: "indexOf alphabet c = int v" and v: "v < 32"
    using indexOf_alphabet [OF c] by (simp_all add: v_def)
  have val': "toInt32 val' = toInt32 (int N')"
    unfolding val'_def idx N'_def using Cons.prems(3) v by (rule toInt32_step)
  have shift: "N' div 2 ^ (bits + 5) = N div 2 ^ bits"
  proof -
    have "N' div 2 ^ (bits + 5) = N' div (32 * 2 ^ bits)"
      by (simp add: power_add mult.commute)
    also have "\<dots> = N' div 32 div 2 ^ bits"
      by (rule div_mult2_eq)
    also have "N' div 32 = N" using v by (simp add: N'_def)
    finally show ?thesis .
  qed
  show ?case
  proof (cases "8 \<le> bits + 5")
    case True
    define k where "k = bits + 5 - 8"
    define b :: byte where "b = word_of_int (js_and (js_ushr val' k) 0xff)"
    have k: "k \<le> 4" "k < 8" "bits + 5 = k + 8" using True Cons.prems(2) by (simp_all add: k_def)
    have b: "unat b = (N' div 2 ^ k) mod 256"
      unfolding b_def using val' k(1) by (rule out_byte)
    have "N' div 2 ^ k div 256 = N' div (2 ^ k * 256)"
      by (rule div_mult2_eq [symmetric])
    also have "\<dots> = N' div 2 ^ (bits + 5)"
      by (simp add: k(3) power_add)
    finally have "N' div 2 ^ k div 256 = N div 2 ^ bits"
      using shift by simp
    then have "256 * (N div 2 ^ bits) + (N' div 2 ^ k) mod 256 = N' div 2 ^ k"
      using mult_div_mod_eq [of 256 "N' div 2 ^ k"] by simp
    then have res: "bytesValue (result @ [b]) = N' div 2 ^ k"
      using b Cons.prems(4) by (simp add: bytesValue_snoc)
    have step: "decodeLoop (c # cs) bits val result = decodeLoop cs k val' (result @ [b])"
      using True by (simp add: Let_def val'_def b_def k_def)
    have m: "(k + 5 * length cs) mod 8 = (bits + 5 * length (c # cs)) mod 8"
      "length (result @ [b]) + (k + 5 * length cs) div 8
         = length result + (bits + 5 * length (c # cs)) div 8"
      using k(3) by simp_all
    show ?thesis
      using Cons.IH [OF cs k(2) val' res] unfolding step m
      by (simp add: N'_def v_def)
  next
    case False
    then have lt: "bits + 5 < 8" by simp
    have res: "bytesValue result = N' div 2 ^ (bits + 5)"
      using shift Cons.prems(4) by simp
    have step: "decodeLoop (c # cs) bits val result = decodeLoop cs (bits + 5) val' result"
      using False by (simp add: Let_def val'_def)
    have m: "(bits + 5 + 5 * length cs) mod 8 = (bits + 5 * length (c # cs)) mod 8"
      "(bits + 5 + 5 * length cs) div 8 = (bits + 5 * length (c # cs)) div 8"
      by (simp_all add: ac_simps)
    show ?thesis
      using Cons.IH [OF cs lt val' res] unfolding step m
      by (simp add: N'_def v_def)
  qed
qed

lemma decodeBase32_cases:
  "decodeBase32 s =
     (let n = stripPadding (normalizeSecret s)
      in if n = [] then Inl EmptyBase32String
         else if \<exists>c\<in>set n. c \<notin> set alphabet then Inl InvalidBase32Character
         else Inr (decodeLoop n 0 0 []))"
  by (auto simp: decodeBase32_def Let_def list_all_iff isBase32Char_iff)

lemma of_char_toUpperChar:
  "(of_char (toUpperChar c) :: nat) =
     (if 97 \<le> (of_char c :: nat) \<and> (of_char c :: nat) \<le> 122 then of_char c - 32 else of_char c)"
proof (cases "97 \<le> (of_char c :: nat) \<and> (of_char c :: nat) \<le> 122")
  case True
  then have "(of_char c :: nat) - 32 < 256" by linarith
  then show ?thesis using True by (simp add: toUpperChar_def)
next
  case False
  then show ?thesis by (auto simp: toUpperChar_def)
qed

lemma char_eqI: "(of_char a :: nat) = of_char b \<Longrightarrow> a = b"
  by simp

lemma isWhitespace_toUpperChar [simp]: "isWhitespace (toUpperChar c) = isWhitespace c"
  unfolding isWhitespace_def of_char_toUpperChar by auto

lemma toUpperChar_idem [simp]: "toUpperChar (toUpperChar c) = toUpperChar c"
  by (rule char_eqI) (auto simp: of_char_toUpperChar)

lemma normalizeSecret_idem: "normalizeSecret (normalizeSecret t) = normalizeSecret t"
  by (simp add: normalizeSecret_def toUpperCase_def filter_map comp_def)

lemma normalizeSecret_toUpperCase: "normalizeSecret (toUpperCase t) = normalizeSecret t"
  by (simp add: normalizeSecret_def toUpperCase_def filter_map comp_def)

lemma normalizeSecret_no_whitespace:
  "normalizeSecret (filter (\<lambda>c. \<not> isWhitespace c) t) = normalizeSecret t"
  by (simp add: normalizeSecret_def)

lemma stripPadding_idem: "stripPadding (stripPadding s) = stripPadding s"
  by (simp add: stripPadding_def)

lemma dropWhile_padding:
  "dropWhile (\<lambda>c. c = CHR ''='') (replicate k CHR ''='' @ ys) = dropWhile (\<lambda>c. c = CHR ''='') ys"
  by (induction k) simp_all

lemma stripPadding_append_padding: "stripPadding (s @ replicate k CHR ''='') = stripPadding s"
  by (simp add: stripPadding_def dropWhile_padding)

lemma normalizeSecret_append:
  "normalizeSecret (s @ u) = normalizeSecret s @ normalizeSecret u"
  by (simp add: normalizeSecret_def toUpperCase_def)

lemma normalizeSecret_padding: "normalizeSecret (replicate k CHR ''='') = replicate k CHR ''=''"
  by (induction k) (simp_all add: normalizeSecret_def toUpperCase_def isWhitespace_def toUpperChar_def)

lemma toUpperChar_not_padding: "toUpperChar c = CHR ''='' \<longleftrightarrow> c = CHR ''=''"
proof -
  have "toUpperChar c = CHR ''='' \<longleftrightarrow> (of_char (toUpperChar c) :: nat) = of_char CHR ''=''"
    by (simp only: of_char_eq_iff)
  also have "\<dots> \<longleftrightarrow> (of_char c :: nat) = of_char CHR ''=''"
    by (simp add: of_char_toUpperChar) linarith
  also have "\<dots> \<longleftrightarrow> c = CHR ''=''"
    by (simp only: of_char_eq_iff)
  finally show ?thesis .
qed

lemma stripPadding_map_toUpperChar:
  "stripPadding (map toUpperChar s) = map toUpperChar (stripPadding s)"
  by (simp add: stripPadding_def rev_map dropWhile_map comp_def toUpperChar_not_padding)

lemma stripPadding_filter:
  "stripPadding (filter (\<lambda>c. \<not> isWhitespace c) (stripPadding (filter (\<lambda>c. \<not> isWhitespace c) s)))
     = stripPadding (filter (\<lambda>c. \<not> isWhitespace c) s)"
proof -
  have "filter (\<lambda>c. \<not> isWhitespace c) (stripPadding (filter (\<lambda>c. \<not> isWhitespace c) s))
        = stripPadding (filter (\<lambda>c. \<not> isWhitespace c) s)"
    unfolding stripPadding_def
    by (intro filter_True) (auto simp: rev_filter [symmetric] dest!: set_dropWhileD)
  then show ?thesis by (simp add: stripPadding_idem)
qed

lemma normalize_strip_idem:
  "stripPadding (normalizeSecret (stripPadding (normalizeSecret t))) = stripPadding (normalizeSecret t)"
  by (simp add: normalizeSecret_def toUpperCase_def stripPadding_map_toUpperChar filter_map comp_def
      stripPadding_filter)

lemma decodeBase32_normal_form:
  "stripPadding (normalizeSecret t) = stripPadding (normalizeSecret u) \<Longrightarrow>
     decodeBase32 t = decodeBase32 u"
  by (simp add: decodeBase32_def)


subsection \<open>Whitespace and letter case\<close>

lemma of_char_whitespaceChars: "map of_char whitespaceChars = [9 :: nat, 10, 11, 12, 13, 32]"
  by (simp add: whitespaceChars_def)

lemma isWhitespace_iff: "isWhitespace c \<longleftrightarrow> c \<in> set whitespaceChars"
proof -
  have "c \<in> set whitespaceChars \<longleftrightarrow> (of_char c :: nat) \<in> of_char ` set whitespaceChars"
    by (simp add: inj_image_mem_iff inj_on_def)
  also have "\<dots> \<longleftrightarrow> (of_char c :: nat) \<in> set [9, 10, 11, 12, 13, 32]"
    by (simp only: of_char_whitespaceChars [symmetric] set_map)
  also have "\<dots> \<longleftrightarrow> isWhitespace c"
    unfolding isWhitespace_def by (simp only: list.set insert_iff empty_iff) arith
  finally show ?thesis by simp
qed

lemma normalizeSecret_withoutWhitespace:
  "normalizeSecret t = toUpperCase (withoutWhitespace t)"
  by (simp add: normalizeSecret_def withoutWhitespace_def isWhitespace_iff)

lemma sameLetter_toUpperChar: "sameLetter c d \<Longrightarrow> toUpperChar c = toUpperChar d"
  unfolding sameLetter_def lowerLetters_def upperLetters_def
  by (simp only: zip_Cons_Cons zip_Nil list.set insert_iff empty_iff prod.inject)
     (elim disjE conjE FalseE; rule char_eqI; simp add: of_char_toUpperChar)

lemma sameLetter_isWhitespace: "sameLetter c d \<Longrightarrow> isWhitespace c = isWhitespace d"
  unfolding sameLetter_def lowerLetters_def upperLetters_def
  by (simp only: zip_Cons_Cons zip_Nil list.set insert_iff empty_iff prod.inject)
     (elim disjE conjE FalseE; simp add: isWhitespace_def)

lemma sameUpToCase_normalizeSecret:
  "sameUpToCase t u \<Longrightarrow> normalizeSecret t = normalizeSecret u"
  unfolding sameUpToCase_def
proof (induction rule: list_all2_induct)
  case Nil
  show ?case by simp
next
  case (Cons c t d u)
  then show ?case
    by (simp add: normalizeSecret_def toUpperCase_def sameLetter_toUpperChar [of c d]
        sameLetter_isWhitespace [of c d])
qed
section \<open>The length of the digests\<close>

lemma length_sha1 [simp]: "length (sha1 m) = 20"
  by (simp add: sha1_def word32_bytes_def split: prod.splits)

lemma length_bytesOf [simp]: "length (bytesOf n x) = n"
  by (induction n arbitrary: x) simp_all

lemma length_sha2_rounds: "length s = 8 \<Longrightarrow> length (sha2_rounds w ks xs s) = 8"
  by (induction w ks xs s rule: sha2_rounds.induct) (simp_all add: Let_def)

lemma length_sha2_block: "length s = 8 \<Longrightarrow> length (sha2_block w ks s blk) = 8"
  by (simp add: sha2_block_def length_sha2_rounds)

lemma length_sha2_blocks: "length s = 8 \<Longrightarrow> length (sha2_blocks w ks s ws) = 8"
  by (induction w ks s ws rule: sha2_blocks.induct) (simp_all add: length_sha2_block)

lemma length_concat_bytesOf: "length (concat (map (bytesOf n) xs)) = n * length xs"
  by (induction xs) simp_all

lemma length_sha256 [simp]: "length (sha256 m) = 32"
  by (simp add: sha256_def length_concat_bytesOf length_sha2_blocks sha256_iv_def)

lemma length_sha512 [simp]: "length (sha512 m) = 64"
  by (simp add: sha512_def length_concat_bytesOf length_sha2_blocks sha512_iv_def)

lemma length_createHmac:
  "length (createHmac alg key msg) = (case alg of SHA1 \<Rightarrow> 20 | SHA256 \<Rightarrow> 32 | SHA512 \<Rightarrow> 64)"
  by (cases alg) (simp_all add: createHmac_def hmacDigest_def Let_def)

section \<open>The library on the secret of its tests\<close>

text \<open>
  The digests of HMAC-SHA-1 under the key that the secret \<open>JBSWY3DPEHPK3PXP\<close> of the tests
  decodes to, for three consecutive counters. The codes of the counters 56245959 and 56245960
  are the same, \<open>249386\<close>.
\<close>

lemma sha1_schedule_numeral:
  "sha1_schedule (numeral k) ws =
     hd ws # sha1_schedule (pred_numeral k) (tl ws @ [rotl32 1 (ws ! 13 XOR ws ! 8 XOR ws ! 2 XOR ws ! 0)])"
  by (simp add: numeral_eq_Suc)

lemma replicate_numeral: "replicate (numeral k) x = x # replicate (pred_numeral k) x"
  by (simp add: numeral_eq_Suc)

lemmas sha1_eval = sha1_block.simps sha1_schedule_numeral rotl32_def add32_def sha1_f_def sha1_k_def

lemma sha1_block_1:
  "sha1_block (1732584193, 4023233417, 2562383102, 271733878, 3285377520)
     [2119391834, 1494739099, 2295936566, 909522486, 909522486, 909522486, 909522486, 909522486, 909522486, 909522486, 909522486, 909522486, 909522486, 909522486, 909522486, 909522486] =
   (3715725260, 1380640354, 3878100862, 144215461, 2792695825)"
  by (simp add: sha1_eval)

lemma sha1_block_2:
  "sha1_block (3715725260, 1380640354, 3878100862, 144215461, 2792695825)
     [0, 56245958, 2147483648, 0, 0, 0, 0, 0, 0, 0, 0, 0, 0, 0, 0, 576] =
   (3696080450, 4075971672, 3363770448, 3092428382, 1361966160)"
  by (simp add: sha1_eval)

lemma sha1_value_1:
  "sha1 [126, 83, 90, 90, 89, 23, 232, 155, 136, 217, 54, 54, 54, 54, 54, 54, 54, 54, 54, 54, 54, 54, 54, 54, 54, 54, 54, 54, 54, 54, 54, 54, 54, 54, 54, 54, 54, 54, 54, 54, 54, 54, 54, 54, 54, 54, 54, 54, 54, 54, 54, 54, 54, 54, 54, 54, 54, 54, 54, 54, 54, 54, 54, 54, 0, 0, 0, 0, 3, 90, 62, 198] =
     [220, 77, 182, 66, 242, 242, 100, 88, 200, 127, 16, 80, 184, 82, 182, 94, 81, 45, 244, 80]"
  by (simp add: sha1_def sha_pad_def lengthBytes_def word32_bytes_def replicate_numeral sha1_block_1 sha1_block_2)

lemma sha1_block_3:
  "sha1_block (1732584193, 4023233417, 2562383102, 271733878, 3285377520)
     [339292208, 863863537, 3803405404, 1549556828, 1549556828, 1549556828, 1549556828, 1549556828, 1549556828, 1549556828, 1549556828, 1549556828, 1549556828, 1549556828, 1549556828, 1549556828] =
   (2634400316, 2437370271, 3036113104, 1192652808, 2427902477)"
  by (simp add: sha1_eval)

lemma sha1_block_4:
  "sha1_block (2634400316, 2437370271, 3036113104, 1192652808, 2427902477)
     [3696080450, 4075971672, 3363770448, 3092428382, 1361966160, 2147483648, 0, 0, 0, 0, 0, 0, 0, 0, 0, 672] =
   (2356732697, 1673418696, 741252414, 1058379279, 2693797581)"
  by (simp add: sha1_eval)

lemma sha1_value_2:
  "sha1 [20, 57, 48, 48, 51, 125, 130, 241, 226, 179, 92, 92, 92, 92, 92, 92, 92, 92, 92, 92, 92, 92, 92, 92, 92, 92, 92, 92, 92, 92, 92, 92, 92, 92, 92, 92, 92, 92, 92, 92, 92, 92, 92, 92, 92, 92, 92, 92, 92, 92, 92, 92, 92, 92, 92, 92, 92, 92, 92, 92, 92, 92, 92, 92, 220, 77, 182, 66, 242, 242, 100, 88, 200, 127, 16, 80, 184, 82, 182, 94, 81, 45, 244, 80] =
     [140, 120, 227, 25, 99, 190, 87, 200, 44, 46, 157, 62, 63, 21, 150, 15, 160, 144, 22, 205]"
  by (simp add: sha1_def sha_pad_def lengthBytes_def word32_bytes_def replicate_numeral sha1_block_3 sha1_block_4)

lemma createHmac_56245958:
  "createHmac SHA1 [72, 101, 108, 108, 111, 33, 222, 173, 190, 239] [0, 0, 0, 0, 3, 90, 62, 198] =
     [140, 120, 227, 25, 99, 190, 87, 200, 44, 46, 157, 62, 63, 21, 150, 15, 160, 144, 22, 205]"
  by (simp add: createHmac_def hmacDigest_def replicate_numeral sha1_value_1 sha1_value_2)

lemma counterBuffer_56245958: "counterBuffer 56245958 = [0, 0, 0, 0, 3, 90, 62, 198]"
  by (simp add: counterBuffer_bytes)

lemma generateHOTP_56245958:
  "generateHOTP createHmac [72, 101, 108, 108, 111, 33, 222, 173, 190, 239] 56245958 SHA1 6 = ''155936''"
  by (simp add: generateHOTP_padded counterBuffer_56245958 createHmac_56245958 dynamicBinary_eq Let_def
      natToString.simps padStart_def digitChar_def char_of_eq_iff)

lemma sha1_block_5:
  "sha1_block (3715725260, 1380640354, 3878100862, 144215461, 2792695825)
     [0, 56245959, 2147483648, 0, 0, 0, 0, 0, 0, 0, 0, 0, 0, 0, 0, 576] =
   (3964189265, 3121620172, 3969574413, 3486598719, 1578026122)"
  by (simp add: sha1_eval)

lemma sha1_value_3:
  "sha1 [126, 83, 90, 90, 89, 23, 232, 155, 136, 217, 54, 54, 54, 54, 54, 54, 54, 54, 54, 54, 54, 54, 54, 54, 54, 54, 54, 54, 54, 54, 54, 54, 54, 54, 54, 54, 54, 54, 54, 54, 54, 54, 54, 54, 54, 54, 54, 54, 54, 54, 54, 54, 54, 54, 54, 54, 54, 54, 54, 54, 54, 54, 54, 54, 0, 0, 0, 0, 3, 90, 62, 199] =
     [236, 72, 186, 81, 186, 16, 36, 204, 236, 154, 230, 13, 207, 209, 70, 63, 94, 14, 196, 138]"
  by (simp add: sha1_def sha_pad_def lengthBytes_def word32_bytes_def replicate_numeral sha1_block_1 sha1_block_5)

lemma sha1_block_6:
  "sha1_block (2634400316, 2437370271, 3036113104, 1192652808, 2427902477)
     [3964189265, 3121620172, 3969574413, 3486598719, 1578026122, 2147483648, 0, 0, 0, 0, 0, 0, 0, 0, 0, 672] =
   (2834965252, 68647582, 2432929336, 1046336803, 2867794525)"
  by (simp add: sha1_eval)

lemma sha1_value_4:
  "sha1 [20, 57, 48, 48, 51, 125, 130, 241, 226, 179, 92, 92, 92, 92, 92, 92, 92, 92, 92, 92, 92, 92, 92, 92, 92, 92, 92, 92, 92, 92, 92, 92, 92, 92, 92, 92, 92, 92, 92, 92, 92, 92, 92, 92, 92, 92, 92, 92, 92, 92, 92, 92, 92, 92, 92, 92, 92, 92, 92, 92, 92, 92, 92, 92, 236, 72, 186, 81, 186, 16, 36, 204, 236, 154, 230, 13, 207, 209, 70, 63, 94, 14, 196, 138] =
     [168, 250, 35, 4, 4, 23, 122, 158, 145, 3, 142, 56, 62, 93, 213, 35, 170, 239, 18, 93]"
  by (simp add: sha1_def sha_pad_def lengthBytes_def word32_bytes_def replicate_numeral sha1_block_3 sha1_block_6)

lemma createHmac_56245959:
  "createHmac SHA1 [72, 101, 108, 108, 111, 33, 222, 173, 190, 239] [0, 0, 0, 0, 3, 90, 62, 199] =
     [168, 250, 35, 4, 4, 23, 122, 158, 145, 3, 142, 56, 62, 93, 213, 35, 170, 239, 18, 93]"
  by (simp add: createHmac_def hmacDigest_def replicate_numeral sha1_value_3 sha1_value_4)

lemma counterBuffer_56245959: "counterBuffer 56245959 = [0, 0, 0, 0, 3, 90, 62, 199]"
  by (simp add: counterBuffer_bytes)

lemma generateHOTP_56245959:
  "generateHOTP createHmac [72, 101, 108, 108, 111, 33, 222, 173, 190, 239] 56245959 SHA1 6 = ''249386''"
  by (simp add: generateHOTP_padded counterBuffer_56245959 createHmac_56245959 dynamicBinary_eq Let_def
      natToString.simps padStart_def digitChar_def char_of_eq_iff)

lemma sha1_block_7:
  "sha1_block (3715725260, 1380640354, 3878100862, 144215461, 2792695825)
     [0, 56245960, 2147483648, 0, 0, 0, 0, 0, 0, 0, 0, 0, 0, 0, 0, 576] =
   (2393107579, 4223116039, 821262149, 1181973755, 1207614307)"
  by (simp add: sha1_eval)

lemma sha1_value_5:
  "sha1 [126, 83, 90, 90, 89, 23, 232, 155, 136, 217, 54, 54, 54, 54, 54, 54, 54, 54, 54, 54, 54, 54, 54, 54, 54, 54, 54, 54, 54, 54, 54, 54, 54, 54, 54, 54, 54, 54, 54, 54, 54, 54, 54, 54, 54, 54, 54, 54, 54, 54, 54, 54, 54, 54, 54, 54, 54, 54, 54, 54, 54, 54, 54, 54, 0, 0, 0, 0, 3, 90, 62, 200] =
     [142, 163, 236, 123, 251, 183, 163, 7, 48, 243, 119, 69, 70, 115, 124, 251, 71, 250, 187, 99]"
  by (simp add: sha1_def sha_pad_def lengthBytes_def word32_bytes_def replicate_numeral sha1_block_1 sha1_block_7)

lemma sha1_block_8:
  "sha1_block (2634400316, 2437370271, 3036113104, 1192652808, 2427902477)
     [2393107579, 4223116039, 821262149, 1181973755, 1207614307, 2147483648, 0, 0, 0, 0, 0, 0, 0, 0, 0, 672] =
   (2073249386, 2623607090, 1354046837, 3031178061, 1311392512)"
  by (simp add: sha1_eval)

lemma sha1_value_6:
  "sha1 [20, 57, 48, 48, 51, 125, 130, 241, 226, 179, 92, 92, 92, 92, 92, 92, 92, 92, 92, 92, 92, 92, 92, 92, 92, 92, 92, 92, 92, 92, 92, 92, 92, 92, 92, 92, 92, 92, 92, 92, 92, 92, 92, 92, 92, 92, 92, 92, 92, 92, 92, 92, 92, 92, 92, 92, 92, 92, 92, 92, 92, 92, 92, 92, 142, 163, 236, 123, 251, 183, 163, 7, 48, 243, 119, 69, 70, 115, 124, 251, 71, 250, 187, 99] =
     [123, 147, 70, 106, 156, 97, 17, 50, 80, 181, 29, 117, 180, 172, 27, 77, 78, 42, 67, 0]"
  by (simp add: sha1_def sha_pad_def lengthBytes_def word32_bytes_def replicate_numeral sha1_block_3 sha1_block_8)

lemma createHmac_56245960:
  "createHmac SHA1 [72, 101, 108, 108, 111, 33, 222, 173, 190, 239] [0, 0, 0, 0, 3, 90, 62, 200] =
     [123, 147, 70, 106, 156, 97, 17, 50, 80, 181, 29, 117, 180, 172, 27, 77, 78, 42, 67, 0]"
  by (simp add: createHmac_def hmacDigest_def replicate_numeral sha1_value_5 sha1_value_6)

lemma counterBuffer_56245960: "counterBuffer 56245960 = [0, 0, 0, 0, 3, 90, 62, 200]"
  by (simp add: counterBuffer_bytes)

lemma generateHOTP_56245960:
  "generateHOTP createHmac [72, 101, 108, 108, 111, 33, 222, 173, 190, 239] 56245960 SHA1 6 = ''249386''"
  by (simp add: generateHOTP_padded counterBuffer_56245960 createHmac_56245960 dynamicBinary_eq Let_def
      natToString.simps padStart_def digitChar_def char_of_eq_iff)

lemma decodeBase32_testSecret:
  "decodeBase32 ''JBSWY3DPEHPK3PXP'' = Inr [72, 101, 108, 108, 111, 33, 222, 173, 190, 239]"
  by (simp add: decodeBase32_def stripPadding_def normalizeSecret_def toUpperCase_def toUpperChar_def
      isWhitespace_def isBase32Char_def alphabet_def indexOf_def js_or_int js_shl_int js_ushr_int
      js_and_int Let_def)

lemma timeOptions_simps [simp]:
  "optAlgorithm (timeOptions t w) = SHA1" "optDigits (timeOptions t w) = 6"
  "optPeriod (timeOptions t w) = 30" "optTimestamp now (timeOptions t w) = t"
  "optWindow (timeOptions t None) = 1" "optWindow (timeOptions t (Some x)) = x"
  "timestamp (timeOptions t w) = Some t" "window (timeOptions t w) = w"
  by (simp_all add: timeOptions_def optAlgorithm_def optDigits_def optPeriod_def optTimestamp_def
      optWindow_def)

lemma generateTOTP_testSecret:
  assumes "optAlgorithm options = SHA1" "optDigits options = 6" "optPeriod options = 30"
  shows "optTimestamp now options = 1687378740000 \<Longrightarrow>
           generateTOTP createHmac now testSecret options = Inr ''155936''"
    and "optTimestamp now options = 1687378770000 \<Longrightarrow>
           generateTOTP createHmac now testSecret options = Inr ''249386''"
    and "optTimestamp now options = 1687378800000 \<Longrightarrow>
           generateTOTP createHmac now testSecret options = Inr ''249386''"
  using assms
  by (simp_all add: generateTOTP_def testSecret_def decodeBase32_testSecret timeCounter_def
      generateHOTP_56245958 generateHOTP_56245959 generateHOTP_56245960)

lemma generateTOTP_at [simp]:
  "generateTOTP createHmac now testSecret (timeOptions 1687378740000 w) = Inr ''155936''"
  "generateTOTP createHmac now testSecret (timeOptions 1687378770000 w) = Inr ''249386''"
  "generateTOTP createHmac now testSecret (timeOptions 1687378800000 w) = Inr ''249386''"
  "generateTOTP createHmac now testSecret (timeOptions t w\<lparr>timestamp := Some 1687378740000\<rparr>)
     = Inr ''155936''"
  "generateTOTP createHmac now testSecret (timeOptions t w\<lparr>timestamp := Some 1687378770000\<rparr>)
     = Inr ''249386''"
  "generateTOTP createHmac now testSecret (timeOptions t w\<lparr>timestamp := Some 1687378800000\<rparr>)
     = Inr ''249386''"
  by (simp_all add: generateTOTP_testSecret)

section \<open>The library on an empty byte array\<close>

text \<open>
  The digest of HMAC-SHA-1 under the empty key for the counter 54500000, which is the counter
  of the timestamp 1635000000000 with the period 30, and the code that it truncates to.
\<close>

lemma sha1_block_9:
  "sha1_block (1732584193, 4023233417, 2562383102, 271733878, 3285377520)
     [909522486, 909522486, 909522486, 909522486, 909522486, 909522486, 909522486, 909522486, 909522486, 909522486, 909522486, 909522486, 909522486, 909522486, 909522486, 909522486] =
   (3388456279, 1645991739, 3926911697, 1101373746, 1313814045)"
  by (simp add: sha1_eval)

lemma sha1_block_10:
  "sha1_block (3388456279, 1645991739, 3926911697, 1101373746, 1313814045)
     [0, 54500000, 2147483648, 0, 0, 0, 0, 0, 0, 0, 0, 0, 0, 0, 0, 576] =
   (4173265297, 3803102401, 1347585397, 4102213533, 2825432463)"
  by (simp add: sha1_eval)

lemma sha1_value_7:
  "sha1 [54, 54, 54, 54, 54, 54, 54, 54, 54, 54, 54, 54, 54, 54, 54, 54, 54, 54, 54, 54, 54, 54, 54, 54, 54, 54, 54, 54, 54, 54, 54, 54, 54, 54, 54, 54, 54, 54, 54, 54, 54, 54, 54, 54, 54, 54, 54, 54, 54, 54, 54, 54, 54, 54, 54, 54, 54, 54, 54, 54, 54, 54, 54, 54, 0, 0, 0, 0, 3, 63, 154, 160] =
     [248, 190, 249, 145, 226, 174, 188, 193, 80, 82, 133, 117, 244, 130, 207, 157, 168, 104, 173, 143]"
  by (simp add: sha1_def sha_pad_def lengthBytes_def word32_bytes_def replicate_numeral sha1_block_9 sha1_block_10)

lemma sha1_block_11:
  "sha1_block (1732584193, 4023233417, 2562383102, 271733878, 3285377520)
     [1549556828, 1549556828, 1549556828, 1549556828, 1549556828, 1549556828, 1549556828, 1549556828, 1549556828, 1549556828, 1549556828, 1549556828, 1549556828, 1549556828, 1549556828, 1549556828] =
   (2542412964, 1893397715, 333561480, 947659313, 1951813997)"
  by (simp add: sha1_eval)

lemma sha1_block_12:
  "sha1_block (2542412964, 1893397715, 333561480, 947659313, 1951813997)
     [4173265297, 3803102401, 1347585397, 4102213533, 2825432463, 2147483648, 0, 0, 0, 0, 0, 0, 0, 0, 0, 672] =
   (2507829870, 3059336113, 1763908824, 2091280197, 2926151239)"
  by (simp add: sha1_eval)

lemma sha1_value_8:
  "sha1 [92, 92, 92, 92, 92, 92, 92, 92, 92, 92, 92, 92, 92, 92, 92, 92, 92, 92, 92, 92, 92, 92, 92, 92, 92, 92, 92, 92, 92, 92, 92, 92, 92, 92, 92, 92, 92, 92, 92, 92, 92, 92, 92, 92, 92, 92, 92, 92, 92, 92, 92, 92, 92, 92, 92, 92, 92, 92, 92, 92, 92, 92, 92, 92, 248, 190, 249, 145, 226, 174, 188, 193, 80, 82, 133, 117, 244, 130, 207, 157, 168, 104, 173, 143] =
     [149, 122, 114, 110, 182, 89, 195, 177, 105, 35, 28, 216, 124, 166, 103, 69, 174, 105, 134, 71]"
  by (simp add: sha1_def sha_pad_def lengthBytes_def word32_bytes_def replicate_numeral sha1_block_11 sha1_block_12)

lemma createHmac_54500000:
  "createHmac SHA1 [] [0, 0, 0, 0, 3, 63, 154, 160] =
     [149, 122, 114, 110, 182, 89, 195, 177, 105, 35, 28, 216, 124, 166, 103, 69, 174, 105, 134, 71]"
  by (simp add: createHmac_def hmacDigest_def replicate_numeral sha1_value_7 sha1_value_8)

lemma counterBuffer_54500000: "counterBuffer 54500000 = [0, 0, 0, 0, 3, 63, 154, 160]"
  by (simp add: counterBuffer_bytes)

lemma generateHOTP_54500000:
  "generateHOTP createHmac [] 54500000 SHA1 6 = ''973852''"
  by (simp add: generateHOTP_padded counterBuffer_54500000 createHmac_54500000 dynamicBinary_eq Let_def
      natToString.simps padStart_def digitChar_def char_of_eq_iff)

section \<open>The claims of the specification\<close>

subsection \<open>HOTP engine\<close>

text \<open>
  C1. For every key, counter, algorithm and digit count of at least 1, \<open>generateHOTP\<close> derives
  the code by dynamic truncation: the offset is the low nibble of the last byte of the digest;
  the four bytes of the digest from that offset on, with the most significant bit of the first
  one cleared, are read as a big-endian integer below \<open>2 ^ 31\<close>; the code is that integer
  modulo \<open>10 ^ digits\<close>, as decimal text of exactly \<open>digits\<close> characters, zeros in front.
  The same holds for every keyed hash whose digests have at least 20 bytes
  (\<open>generateHOTP_truncation\<close>).
\<close>

theorem generateHOTP_dynamic_truncation:
  assumes "1 \<le> digs"
  shows "(let digest = createHmac alg key (counterBuffer counter);
              offset = unat (last digest AND 0x0f);
              binary = uint (digest ! offset AND 0x7f) * 2 ^ 24 + uint (digest ! (offset + 1)) * 2 ^ 16
                       + uint (digest ! (offset + 2)) * 2 ^ 8 + uint (digest ! (offset + 3));
              code = generateHOTP createHmac key counter alg digs
          in offset + 3 < length digest \<and> 0 \<le> binary \<and> binary < 2 ^ 31
             \<and> length code = digs \<and> list_all isDigit code
             \<and> int (decimalValue code) = binary mod 10 ^ digs)"
proof -
  have "20 \<le> length (createHmac alg key (counterBuffer counter))"
    by (cases alg) (simp_all add: length_createHmac)
  then show ?thesis using assms by (rule generateHOTP_truncation)
qed

theorem generateHOTP_dynamic_truncation_witness:
  "(1::nat) \<le> 6
   \<and> length (generateHOTP createHmac [72, 101, 108, 108, 111, 33, 222, 173, 190, 239]
               56245960 SHA1 6) = 6
   \<and> int (decimalValue (generateHOTP createHmac [72, 101, 108, 108, 111, 33, 222, 173, 190, 239]
               56245960 SHA1 6)) = 2073249386 mod 10 ^ 6"
proof -
  have h: "(1::nat) \<le> 6" by simp
  show ?thesis
    using generateHOTP_dynamic_truncation
      [OF h, of SHA1 "[72, 101, 108, 108, 111, 33, 222, 173, 190, 239]" 56245960]
    by (simp add: Let_def counterBuffer_56245960 createHmac_56245960)
qed

text \<open>
  C2. The claim: for every counter from 0 up to \<open>2 ^ 64\<close>, and not only below \<open>2 ^ 32\<close>, the
  buffer that \<open>generateHOTP\<close> hashes is the big-endian serialization of the counter into 8
  bytes. The loop shifts with \<open>>>>\<close>, which keeps the low 32 bits only: the four high bytes of
  the buffer are 0 for every counter (\<open>counterBuffer_low32\<close>), and the claim fails from
  \<open>2 ^ 32\<close> on, where the buffer, and with it the code, is that of the counter 0. Below that
  bound the buffer is the serialization (\<open>counterBuffer_below_2_32\<close>).
\<close>

theorem counterBuffer_drops_high_bytes:
  "counterBuffer 4294967296 = [0, 0, 0, 0, 0, 0, 0, 0]
   \<and> bigEndian64 4294967296 = [0, 0, 0, 1, 0, 0, 0, 0]
   \<and> counterBuffer 4294967296 = counterBuffer 0"
  by (simp add: counterBuffer_bytes bigEndian64_bytes)

subsection \<open>TOTP engine\<close>

text \<open>
  C3. The claim is stated for every secret. A secret that \<open>generateTOTP\<close> rejects makes the
  first iteration of the loop throw, and \<open>verifyTOTP\<close> returns no result. For every secret
  that \<open>generateTOTP\<close> accepts, every token that passes the format check and every window
  \<open>w \<ge> 0\<close>: \<open>verifyTOTP\<close> goes through the offsets from \<open>- w\<close> to \<open>w\<close> in increasing order,
  generates the code for \<open>timestamp + i * period * 1000\<close> at each offset \<open>i\<close>, returns
  \<open>{valid: true, delta: i}\<close> for the first offset whose code is the token, and
  \<open>{valid: false}\<close> without a delta when there is none.
\<close>

theorem verifyTOTP_first_match:
  assumes "generateTOTP hmac now secret options = Inr code"
    and "token \<noteq> []" "length token = optDigits options" "\<forall>c\<in>set token. c \<in> set ''0123456789''"
    and "0 \<le> optWindow options"
  shows "verifyTOTP hmac now token secret options =
     Inr (case find (\<lambda>i. generateTOTP hmac now secret
                  (options\<lparr>timestamp := Some (optTimestamp now options + i * optPeriod options * 1000)\<rparr>)
                = Inr token) [- optWindow options..optWindow options] of
            Some i \<Rightarrow> \<lparr>valid = True, delta = Some i\<rparr>
          | None \<Rightarrow> \<lparr>valid = False, delta = None\<rparr>)"
proof -
  have "list_all isDigit token" using assms(4) by (simp add: list_all_iff isDigit_iff)
  with assms(1-3) show ?thesis by (rule verifyTOTP_window)
qed

theorem verifyTOTP_first_match_witness:
  "generateTOTP createHmac 0 testSecret (timeOptions 1687378800000 (Some 1)) = Inr ''249386''
   \<and> ''249386'' \<noteq> []
   \<and> length ''249386'' = optDigits (timeOptions 1687378800000 (Some 1))
   \<and> set ''249386'' \<subseteq> set ''0123456789''
   \<and> 0 \<le> optWindow (timeOptions 1687378800000 (Some 1))
   \<and> verifyTOTP createHmac 0 ''249386'' testSecret (timeOptions 1687378800000 (Some 1))
       = Inr \<lparr>valid = True, delta = Some (- 1)\<rparr>"
proof -
  have g: "generateTOTP createHmac 0 testSecret (timeOptions 1687378800000 (Some 1)) = Inr ''249386''"
    by simp
  have a: "''249386'' \<noteq> []" "length ''249386'' = optDigits (timeOptions 1687378800000 (Some 1))"
    "\<forall>c\<in>set ''249386''. c \<in> set ''0123456789''"
    by simp_all
  have w: "0 \<le> optWindow (timeOptions 1687378800000 (Some 1))" by simp
  show ?thesis
    using a verifyTOTP_first_match [OF g a w] by (simp add: upto_window_1)
qed

theorem verifyTOTP_first_match_counterexample:
  "verifyTOTP createHmac 0 ''123456'' (TextSecret ''!@#$%^'') (timeOptions 1635000000000 (Some 1))
     = Inl (InvalidSecret InvalidBase32Character)"
  by (simp add: verifyTOTP_def badFormat_def isDigit_def verifyLoop.simps generateTOTP_def
      decodeBase32_def stripPadding_def normalizeSecret_def toUpperCase_def toUpperChar_def
      isWhitespace_def isBase32Char_def)

text \<open>
  C4. The claim gives \<open>{valid: true, delta: 0}\<close> for a code verified at the timestamp it was
  generated for. The default window is 1 and the loop starts at the offset -1: when the code
  of the step before is the same code, the result is \<open>{valid: true, delta: -1}\<close>. For every
  secret that \<open>generateTOTP\<close> accepts, every timestamp \<open>t\<close> and a digit count of at least 1:
  verifying the code of \<open>t\<close> at \<open>t\<close> with the default window returns \<open>valid: true\<close>, with the
  delta 0 when the code of \<open>t - period * 1000\<close> differs from it and the delta -1 when it is
  the same; verifying the code of \<open>t - period * 1000\<close> at \<open>t\<close> with the window 1 returns
  \<open>{valid: true, delta: -1}\<close>.
\<close>

theorem totp_round_trip:
  assumes "timestamp options = Some t" "window options = None" "1 \<le> optDigits options"
  shows "(generateTOTP hmac now secret options = Inr code \<longrightarrow>
            verifyTOTP hmac now code secret options =
              Inr \<lparr>valid = True,
                   delta = Some (if generateTOTP hmac now secret
                                      (options\<lparr>timestamp := Some (t - optPeriod options * 1000)\<rparr>)
                                    = Inr code
                                 then - 1 else 0)\<rparr>)
       \<and> (generateTOTP hmac now secret (options\<lparr>timestamp := Some (t - optPeriod options * 1000)\<rparr>)
             = Inr code' \<longrightarrow>
            verifyTOTP hmac now code' secret (options\<lparr>window := Some 1\<rparr>) =
              Inr \<lparr>valid = True, delta = Some (- 1)\<rparr>)"
proof -
  have ts: "optTimestamp now options = t" using assms(1) by (simp add: optTimestamp_def)
  have w: "optWindow options = 1" using assms(2) by (simp add: optWindow_def)
  have up: "[- 1..1::int] = [- 1, 0, 1]" by (simp add: upto_rec1)
  have same: "options\<lparr>timestamp := Some t\<rparr> = options" using assms(1) by simp
  have p1: "verifyTOTP hmac now code secret options =
              Inr \<lparr>valid = True,
                   delta = Some (if generateTOTP hmac now secret
                                      (options\<lparr>timestamp := Some (t - optPeriod options * 1000)\<rparr>)
                                    = Inr code
                                 then - 1 else 0)\<rparr>"
    if g: "generateTOTP hmac now secret options = Inr code"
  proof -
    have f: "code \<noteq> []" "length code = optDigits options" "list_all isDigit code"
      using g assms(3) by (rule generateTOTP_format)+
    show ?thesis
      using g by (simp add: verifyTOTP_window [OF g f] ts w up same)
  qed
  have p2: "verifyTOTP hmac now code' secret (options\<lparr>window := Some 1\<rparr>) =
              Inr \<lparr>valid = True, delta = Some (- 1)\<rparr>"
    if g: "generateTOTP hmac now secret (options\<lparr>timestamp := Some (t - optPeriod options * 1000)\<rparr>)
             = Inr code'"
  proof -
    have d: "1 \<le> optDigits (options\<lparr>timestamp := Some (t - optPeriod options * 1000)\<rparr>)"
      using assms(3) by simp
    have f: "code' \<noteq> []" "length code' = optDigits (options\<lparr>window := Some 1\<rparr>)"
      "list_all isDigit code'"
      using generateTOTP_format [OF g d] by simp_all
    have g1: "generateTOTP hmac now secret
                (options\<lparr>window := Some 1, timestamp := Some (t - optPeriod options * 1000)\<rparr>)
              = Inr code'"
      using g by (auto simp: generateTOTP_def split: if_splits sum.splits)
    obtain c0 where g0: "generateTOTP hmac now secret (options\<lparr>window := Some 1\<rparr>) = Inr c0"
      using g by (auto simp: generateTOTP_def split: if_splits sum.splits)
    show ?thesis
      using g1 by (simp add: verifyTOTP_window [OF g0 f] ts up)
  qed
  from p1 p2 show ?thesis by blast
qed

theorem totp_round_trip_witness:
  "timestamp (timeOptions 1687378770000 None) = Some 1687378770000
   \<and> window (timeOptions 1687378770000 None) = None
   \<and> 1 \<le> optDigits (timeOptions 1687378770000 None)
   \<and> generateTOTP createHmac 0 testSecret (timeOptions 1687378770000 None) = Inr ''249386''
   \<and> verifyTOTP createHmac 0 ''249386'' testSecret (timeOptions 1687378770000 None)
       = Inr \<lparr>valid = True, delta = Some 0\<rparr>
   \<and> generateTOTP createHmac 0 testSecret
         (timeOptions 1687378770000 None\<lparr>timestamp := Some (1687378770000 - 30 * 1000)\<rparr>)
       = Inr ''155936''
   \<and> verifyTOTP createHmac 0 ''155936'' testSecret
         (timeOptions 1687378770000 None\<lparr>window := Some 1\<rparr>)
       = Inr \<lparr>valid = True, delta = Some (- 1)\<rparr>"
proof -
  have h: "timestamp (timeOptions 1687378770000 None) = Some 1687378770000"
    "window (timeOptions 1687378770000 None) = None"
    "1 \<le> optDigits (timeOptions 1687378770000 None)"
    by simp_all
  show ?thesis
    using h totp_round_trip [OF h, of createHmac 0 testSecret "''249386''" "''155936''"]
    by simp
qed

theorem totp_round_trip_counterexample:
  "generateTOTP createHmac 0 testSecret (timeOptions 1687378800000 None) = Inr ''249386''
   \<and> verifyTOTP createHmac 0 ''249386'' testSecret (timeOptions 1687378800000 None)
       = Inr \<lparr>valid = True, delta = Some (- 1)\<rparr>"
proof -
  have g: "generateTOTP createHmac 0 testSecret (timeOptions 1687378800000 None) = Inr ''249386''"
    by simp
  have "list_all isDigit ''249386''" by (simp add: isDigit_def)
  then have "verifyTOTP createHmac 0 ''249386'' testSecret (timeOptions 1687378800000 None)
       = Inr \<lparr>valid = True, delta = Some (- 1)\<rparr>"
    by (simp add: verifyTOTP_window [OF g] upto_window_1)
  with g show ?thesis by simp
qed

text \<open>
  C5. For every secret, timestamp and option set: when the token is empty, or its length
  differs from the digit count, or it contains a character that is not a decimal digit,
  \<open>verifyTOTP\<close> returns \<open>{valid: false}\<close>. The result is the same for every secret, also one
  that \<open>generateTOTP\<close> rejects, for every timestamp and for every keyed hash: no code is
  computed.
\<close>

theorem verifyTOTP_bad_format:
  assumes "token = [] \<or> length token \<noteq> optDigits options \<or> (\<exists>c\<in>set token. c \<notin> set ''0123456789'')"
  shows "verifyTOTP hmac now token secret options = Inr \<lparr>valid = False, delta = None\<rparr>"
proof -
  have "badFormat token (optDigits options)"
    using assms unfolding badFormat_def list_all_iff isDigit_iff by blast
  then show ?thesis by (simp add: verifyTOTP_def)
qed

theorem verifyTOTP_bad_format_witness:
  "length ''12345'' \<noteq> optDigits (timeOptions 1635000000000 None)
   \<and> verifyTOTP createHmac 0 ''12345'' (TextSecret ''!@#$%^'') (timeOptions 1635000000000 None)
       = Inr \<lparr>valid = False, delta = None\<rparr>
   \<and> CHR ''a'' \<in> set ''12a456'' \<and> CHR ''a'' \<notin> set ''0123456789''
   \<and> verifyTOTP createHmac 0 ''12a456'' NoSecret (timeOptions 1635000000000 None)
       = Inr \<lparr>valid = False, delta = None\<rparr>"
proof -
  have h: "''12345'' = [] \<or> length ''12345'' \<noteq> optDigits (timeOptions 1635000000000 None)
      \<or> (\<exists>c\<in>set ''12345''. c \<notin> set ''0123456789'')"
    by simp
  have k: "''12a456'' = [] \<or> length ''12a456'' \<noteq> optDigits (timeOptions 1635000000000 None)
      \<or> (\<exists>c\<in>set ''12a456''. c \<notin> set ''0123456789'')"
    by simp
  show ?thesis
    using verifyTOTP_bad_format [OF h] verifyTOTP_bad_format [OF k] by simp
qed

text \<open>
  C6. The claim has \<open>generateTOTP\<close> fail with \<open>MissingSecret\<close> for an empty secret in both
  representations, the text and the bytes. The guard is \<open>!secret\<close>: it is the test for the
  empty string, and no \<open>Uint8Array\<close> satisfies it. \<open>generateTOTP(new Uint8Array(0),
  {timestamp: 1635000000000})\<close> does not fail: it returns \<open>973852\<close>, the code of HMAC-SHA-1
  under the empty key for the counter 54500000, where the same call on the empty string
  fails with \<open>MissingSecret\<close>. The rest of the claim holds, by \<open>generateTOTP_text_errors\<close>.
\<close>

theorem generateTOTP_empty_bytes:
  "generateTOTP createHmac now (BytesSecret []) (timeOptions 1635000000000 None) = Inr ''973852''
   \<and> generateTOTP createHmac now (TextSecret []) (timeOptions 1635000000000 None)
       = Inl MissingSecret"
  by (simp add: generateTOTP_def timeCounter_def generateHOTP_54500000)

text \<open>
  C9. The claim has a code that is \<open>window + 1\<close> steps away always rejected. The loop compares
  texts of a few decimal digits, and the code of the step outside the window can be the code
  of a step inside it. For every secret that \<open>generateTOTP\<close> accepts, every timestamp, window
  \<open>w \<ge> 0\<close>, digit count of at least 1 and \<open>k\<close> with \<open>\<bar>k\<bar> = w + 1\<close>, verifying the code of
  \<open>timestamp + k * period * 1000\<close> against \<open>timestamp\<close> returns \<open>{valid: false}\<close> exactly when
  that code differs from the codes of all the offsets from \<open>- w\<close> to \<open>w\<close>; when it is the code
  of one of them, the result is \<open>valid: true\<close> with the delta of such an offset, which is not
  \<open>k\<close>.
\<close>

theorem verifyTOTP_outside_window:
  assumes "1 \<le> optDigits options" "0 \<le> optWindow options" "\<bar>k\<bar> = optWindow options + 1"
    and "generateTOTP hmac now secret
           (options\<lparr>timestamp := Some (optTimestamp now options + k * optPeriod options * 1000)\<rparr>)
         = Inr token"
  shows "\<exists>r. verifyTOTP hmac now token secret options = Inr r
     \<and> (valid r \<longleftrightarrow>
          (\<exists>i\<in>{- optWindow options..optWindow options}.
             generateTOTP hmac now secret
               (options\<lparr>timestamp := Some (optTimestamp now options + i * optPeriod options * 1000)\<rparr>)
             = Inr token))
     \<and> (valid r \<longrightarrow>
          (\<exists>i\<in>{- optWindow options..optWindow options}. delta r = Some i \<and> i \<noteq> k \<and>
             generateTOTP hmac now secret
               (options\<lparr>timestamp := Some (optTimestamp now options + i * optPeriod options * 1000)\<rparr>)
             = Inr token))
     \<and> (\<not> valid r \<longrightarrow> delta r = None)"
proof -
  define gen where "gen i = generateTOTP hmac now secret
     (options\<lparr>timestamp := Some (optTimestamp now options + i * optPeriod options * 1000)\<rparr>)" for i
  define w where "w = optWindow options"
  have d: "1 \<le> optDigits (options\<lparr>timestamp := Some (optTimestamp now options + k * optPeriod options * 1000)\<rparr>)"
    using assms(1) by simp
  have f: "token \<noteq> []" "length token = optDigits options" "list_all isDigit token"
    using generateTOTP_format [OF assms(4) d] by simp_all
  obtain c0 where g0: "generateTOTP hmac now secret options = Inr c0"
    using assms(4) by (auto simp: generateTOTP_def split: if_splits sum.splits)
  have v: "verifyTOTP hmac now token secret options =
     Inr (case find (\<lambda>i. gen i = Inr token) [- w..w] of
            Some i \<Rightarrow> \<lparr>valid = True, delta = Some i\<rparr>
          | None \<Rightarrow> \<lparr>valid = False, delta = None\<rparr>)"
    unfolding gen_def w_def by (rule verifyTOTP_window [OF g0 f])
  have out: "i \<noteq> k" if "i \<in> {- w..w}" for i
    using that assms(2,3) by (auto simp: w_def)
  show ?thesis
  proof (cases "find (\<lambda>i. gen i = Inr token) [- w..w]")
    case None
    then have "\<not> (\<exists>i\<in>{- w..w}. gen i = Inr token)"
      by (auto simp: find_None_iff)
    with None v show ?thesis
      unfolding gen_def [symmetric] w_def [symmetric] by simp
  next
    case (Some i)
    then have "i \<in> {- w..w}" "gen i = Inr token"
      by (auto simp: find_Some_iff in_set_conv_nth)
    with Some v out [of i] show ?thesis
      unfolding gen_def [symmetric] w_def [symmetric] by auto
  qed
qed

theorem verifyTOTP_outside_window_witness:
  "1 \<le> optDigits (timeOptions 1687378770000 (Some 0))
   \<and> 0 \<le> optWindow (timeOptions 1687378770000 (Some 0))
   \<and> \<bar>- 1\<bar> = optWindow (timeOptions 1687378770000 (Some 0)) + 1
   \<and> generateTOTP createHmac 0 testSecret
        (timeOptions 1687378770000 (Some 0)\<lparr>timestamp :=
           Some (optTimestamp 0 (timeOptions 1687378770000 (Some 0))
                 + (- 1) * optPeriod (timeOptions 1687378770000 (Some 0)) * 1000)\<rparr>)
       = Inr ''155936''
   \<and> verifyTOTP createHmac 0 ''155936'' testSecret (timeOptions 1687378770000 (Some 0))
       = Inr \<lparr>valid = False, delta = None\<rparr>"
proof -
  have h: "1 \<le> optDigits (timeOptions 1687378770000 (Some 0))"
    "0 \<le> optWindow (timeOptions 1687378770000 (Some 0))"
    "\<bar>- 1\<bar> = optWindow (timeOptions 1687378770000 (Some 0)) + 1"
    "generateTOTP createHmac 0 testSecret
        (timeOptions 1687378770000 (Some 0)\<lparr>timestamp :=
           Some (optTimestamp 0 (timeOptions 1687378770000 (Some 0))
                 + (- 1) * optPeriod (timeOptions 1687378770000 (Some 0)) * 1000)\<rparr>)
       = Inr ''155936''"
    by simp_all
  from verifyTOTP_outside_window [OF h]
  obtain r where r: "verifyTOTP createHmac 0 ''155936'' testSecret (timeOptions 1687378770000 (Some 0))
      = Inr r" "\<not> valid r" "delta r = None"
    by auto
  then have "r = \<lparr>valid = False, delta = None\<rparr>" by simp
  with r(1) h show ?thesis by simp
qed

theorem verifyTOTP_outside_window_counterexample:
  "generateTOTP createHmac 0 testSecret
     (timeOptions 1687378800000 (Some 0)\<lparr>timestamp := Some (1687378800000 + (- 1) * 30 * 1000)\<rparr>)
     = Inr ''249386''
   \<and> verifyTOTP createHmac 0 ''249386'' testSecret (timeOptions 1687378800000 (Some 0))
       = Inr \<lparr>valid = True, delta = Some 0\<rparr>"
proof -
  have g: "generateTOTP createHmac 0 testSecret (timeOptions 1687378800000 (Some 0)) = Inr ''249386''"
    by simp
  have "list_all isDigit ''249386''" by (simp add: isDigit_def)
  then have "verifyTOTP createHmac 0 ''249386'' testSecret (timeOptions 1687378800000 (Some 0))
       = Inr \<lparr>valid = True, delta = Some 0\<rparr>"
    by (simp add: verifyTOTP_window [OF g])
  then show ?thesis by simp
qed

text \<open>
  C10. The claim has \<open>verifyTOTP\<close> pass on the wrapped \<open>InvalidSecret\<close> error for every string
  secret whose Base32 decoding fails. Decoding fails on the empty string too, but
  \<open>generateTOTP\<close> rejects the empty string before it decodes: the error is \<open>MissingSecret\<close>.
  For every token that passes the format check and every window \<open>w \<ge> 0\<close>: for a non-empty
  string secret whose decoding fails, \<open>verifyTOTP\<close> returns no \<open>{valid: false}\<close> but passes on
  \<open>InvalidSecret\<close> around the error of the decoder, thrown in the first iteration of the
  loop; for the empty string it passes on \<open>MissingSecret\<close>.
\<close>

theorem verifyTOTP_invalid_secret:
  assumes "token \<noteq> []" "length token = optDigits options" "\<forall>c\<in>set token. c \<in> set ''0123456789''"
    and "0 \<le> optWindow options"
  shows "(s \<noteq> [] \<longrightarrow> decodeBase32 s = Inl e \<longrightarrow>
            verifyTOTP hmac now token (TextSecret s) options = Inl (InvalidSecret e))
       \<and> verifyTOTP hmac now token (TextSecret []) options = Inl MissingSecret"
proof -
  have "list_all isDigit token" using assms(3) by (simp add: list_all_iff isDigit_iff)
  with assms(1,2) have fmt: "\<not> badFormat token (optDigits options)" by (rule goodFormat)
  have w: "- optWindow options \<le> optWindow options" using assms(4) by simp
  have a: "verifyTOTP hmac now token (TextSecret s) options = Inl (InvalidSecret e)"
    if "s \<noteq> []" "decodeBase32 s = Inl e"
  proof -
    have "generateTOTP hmac now (TextSecret s) options = Inl (InvalidSecret e)"
      using that by (simp add: generateTOTP_def)
    then show ?thesis
      using fmt w by (simp add: verifyTOTP_def verifyLoop_error)
  qed
  have "generateTOTP hmac now (TextSecret []) options = Inl MissingSecret"
    by (simp add: generateTOTP_def)
  then have b: "verifyTOTP hmac now token (TextSecret []) options = Inl MissingSecret"
    using fmt w by (simp add: verifyTOTP_def verifyLoop_error)
  from a b show ?thesis by blast
qed

theorem verifyTOTP_invalid_secret_witness:
  "''123456'' \<noteq> [] \<and> length ''123456'' = optDigits (timeOptions 1635000000000 None)
   \<and> set ''123456'' \<subseteq> set ''0123456789''
   \<and> 0 \<le> optWindow (timeOptions 1635000000000 None)
   \<and> ''!@#$%^'' \<noteq> [] \<and> decodeBase32 ''!@#$%^'' = Inl InvalidBase32Character
   \<and> verifyTOTP createHmac 0 ''123456'' (TextSecret ''!@#$%^'') (timeOptions 1635000000000 None)
       = Inl (InvalidSecret InvalidBase32Character)"
proof -
  have h: "''123456'' \<noteq> []" "length ''123456'' = optDigits (timeOptions 1635000000000 None)"
    "\<forall>c\<in>set ''123456''. c \<in> set ''0123456789''"
    "0 \<le> optWindow (timeOptions 1635000000000 None)"
    by simp_all
  have a: "decodeBase32 ''!@#$%^'' = Inl InvalidBase32Character"
    by (simp add: decodeBase32_def stripPadding_def normalizeSecret_def toUpperCase_def
        toUpperChar_def isWhitespace_def isBase32Char_def)
  show ?thesis
    using h a verifyTOTP_invalid_secret [OF h, of "''!@#$%^''" InvalidBase32Character createHmac 0]
    by simp
qed

theorem verifyTOTP_invalid_secret_counterexample:
  "decodeBase32 [] = Inl EmptyBase32String
   \<and> verifyTOTP createHmac 0 ''123456'' (TextSecret []) (timeOptions 1635000000000 None)
       = Inl MissingSecret"
  by (simp add: verifyTOTP_def badFormat_def isDigit_def verifyLoop.simps generateTOTP_def
      decodeBase32_def stripPadding_def normalizeSecret_def toUpperCase_def)

subsection \<open>Base32 codec\<close>

text \<open>
  C7. For an ASCII text, with \<open>n\<close> the text after the removal of whitespace, upper-casing and
  the removal of the trailing padding: \<open>decodeBase32\<close> fails with \<open>EmptySecret\<close> exactly when
  \<open>n\<close> is empty, fails with \<open>InvalidCharacter\<close> exactly when some character of \<open>n\<close> is outside
  \<open>A\<close> to \<open>Z\<close> and \<open>2\<close> to \<open>7\<close>, and succeeds otherwise, whatever the number of bits: the result
  has \<open>floor (5 * length n / 8)\<close> bytes, which are the bit stream of \<open>n\<close> without its last
  \<open>5 * length n mod 8\<close> bits.
\<close>

theorem decodeBase32_outcomes:
  "asciiText s \<Longrightarrow>
   (let n = stripPadding (normalizeSecret s) in
      (decodeBase32 s = Inl EmptyBase32String \<longleftrightarrow> n = [])
    \<and> (decodeBase32 s = Inl InvalidBase32Character \<longleftrightarrow> (\<exists>c\<in>set n. c \<notin> set alphabet))
    \<and> (n \<noteq> [] \<and> (\<forall>c\<in>set n. c \<in> set alphabet) \<longrightarrow>
         (\<exists>bs. decodeBase32 s = Inr bs \<and> length bs = 5 * length n div 8
               \<and> bytesValue bs = base32Value n div 2 ^ (5 * length n mod 8))))"
proof -
  define n where "n = stripPadding (normalizeSecret s)"
  have d: "decodeBase32 s =
     (if n = [] then Inl EmptyBase32String
      else if \<exists>c\<in>set n. c \<notin> set alphabet then Inl InvalidBase32Character
      else Inr (decodeLoop n 0 0 []))"
    by (simp add: decodeBase32_cases n_def Let_def)
  have e: "decodeBase32 s = Inl EmptyBase32String \<longleftrightarrow> n = []"
    by (simp add: d)
  have i: "decodeBase32 s = Inl InvalidBase32Character \<longleftrightarrow> (\<exists>c\<in>set n. c \<notin> set alphabet)"
    by (auto simp: d)
  have v: "\<exists>bs. decodeBase32 s = Inr bs \<and> length bs = 5 * length n div 8
               \<and> bytesValue bs = base32Value n div 2 ^ (5 * length n mod 8)"
    if "n \<noteq> []" "\<forall>c\<in>set n. c \<in> set alphabet"
  proof -
    have "bytesValue [] = 0 div 2 ^ 0" by (simp add: bytesValue_def)
    from decodeLoop_value [OF that(2) _ refl this]
    have "bytesValue (decodeLoop n 0 0 []) = base32Value n div 2 ^ (5 * length n mod 8)"
      "length (decodeLoop n 0 0 []) = 5 * length n div 8"
      by (simp_all add: base32Value_def)
    with that show ?thesis by (simp add: d)
  qed
  from e i v show ?thesis unfolding n_def [symmetric] Let_def by blast
qed

theorem decodeBase32_outcomes_witness:
  "asciiText ''mz xw6===''
   \<and> stripPadding (normalizeSecret ''mz xw6==='') = ''MZXW6''
   \<and> ''MZXW6'' \<noteq> [] \<and> set ''MZXW6'' \<subseteq> set alphabet
   \<and> (\<exists>bs. decodeBase32 ''mz xw6==='' = Inr bs \<and> length bs = 3 \<and> bytesValue bs = 13426398 div 2)"
proof -
  have a: "asciiText ''mz xw6===''"
    by (simp add: asciiText_def)
  have n: "stripPadding (normalizeSecret ''mz xw6==='') = ''MZXW6''"
    by (simp add: stripPadding_def normalizeSecret_def toUpperCase_def toUpperChar_def
        isWhitespace_def char_of_eq_iff)
  have h: "''MZXW6'' \<noteq> []" "\<forall>c\<in>set ''MZXW6''. c \<in> set alphabet"
    by (simp_all add: alphabet_def)
  have v: "base32Value ''MZXW6'' = 13426398"
    by (simp add: base32Value_def symbolValue_def)
  show ?thesis
    using a n h decodeBase32_outcomes [OF a] by (simp add: Let_def v)
qed

text \<open>
  C8. On ASCII text, decoding does not depend on the letter case, on whitespace or on
  trailing padding: \<open>decodeBase32\<close> returns the same result, bytes or error, for a text and
  for the text normalized, for two texts that are the same up to the case of their letters,
  for two texts that are the same once their whitespace is removed, and for a text with \<open>=\<close>
  characters added at its end. So \<open>JBSWY3DPEHPK3PXP\<close>, \<open>jbswy3dpehpk3pxp\<close> and
  \<open>JBSW Y3DP EHPK 3PXP\<close> decode to the same ten bytes.
\<close>

theorem decodeBase32_normalization_invariant:
  "asciiText t \<Longrightarrow> asciiText u \<Longrightarrow>
     decodeBase32 (normalizeSecret t) = decodeBase32 t
   \<and> (sameUpToCase t u \<longrightarrow> decodeBase32 u = decodeBase32 t)
   \<and> (withoutWhitespace u = withoutWhitespace t \<longrightarrow> decodeBase32 u = decodeBase32 t)
   \<and> decodeBase32 (t @ replicate k CHR ''='') = decodeBase32 t"
proof -
  have n: "decodeBase32 (normalizeSecret t) = decodeBase32 t"
    by (rule decodeBase32_normal_form) (simp add: normalizeSecret_idem)
  have c: "decodeBase32 u = decodeBase32 t" if "sameUpToCase t u"
    by (rule decodeBase32_normal_form) (simp add: sameUpToCase_normalizeSecret [OF that])
  have w: "decodeBase32 u = decodeBase32 t" if "withoutWhitespace u = withoutWhitespace t"
    by (rule decodeBase32_normal_form) (simp add: normalizeSecret_withoutWhitespace that)
  have p: "decodeBase32 (t @ replicate k CHR ''='') = decodeBase32 t"
    by (rule decodeBase32_normal_form)
      (simp add: normalizeSecret_append normalizeSecret_padding stripPadding_append_padding)
  from n c w p show ?thesis by simp
qed

theorem decodeBase32_normalization_invariant_witness:
  "asciiText ''JBSWY3DPEHPK3PXP'' \<and> asciiText ''jbswy3dpehpk3pxp''
   \<and> asciiText ''JBSW Y3DP EHPK 3PXP''
   \<and> sameUpToCase ''JBSWY3DPEHPK3PXP'' ''jbswy3dpehpk3pxp''
   \<and> withoutWhitespace ''JBSW Y3DP EHPK 3PXP'' = withoutWhitespace ''JBSWY3DPEHPK3PXP''
   \<and> decodeBase32 ''JBSWY3DPEHPK3PXP'' = Inr [72, 101, 108, 108, 111, 33, 222, 173, 190, 239]
   \<and> decodeBase32 ''jbswy3dpehpk3pxp'' = Inr [72, 101, 108, 108, 111, 33, 222, 173, 190, 239]
   \<and> decodeBase32 ''JBSW Y3DP EHPK 3PXP'' = Inr [72, 101, 108, 108, 111, 33, 222, 173, 190, 239]
   \<and> decodeBase32 ''JBSWY3DPEHPK3PXP======'' = Inr [72, 101, 108, 108, 111, 33, 222, 173, 190, 239]"
proof -
  have a: "asciiText ''JBSWY3DPEHPK3PXP''" "asciiText ''jbswy3dpehpk3pxp''"
    "asciiText ''JBSW Y3DP EHPK 3PXP''"
    by (simp_all add: asciiText_def)
  have c: "sameUpToCase ''JBSWY3DPEHPK3PXP'' ''jbswy3dpehpk3pxp''"
    by (simp add: sameUpToCase_def sameLetter_def lowerLetters_def upperLetters_def)
  have w: "withoutWhitespace ''JBSW Y3DP EHPK 3PXP'' = withoutWhitespace ''JBSWY3DPEHPK3PXP''"
    by (simp add: withoutWhitespace_def whitespaceChars_def)
  show ?thesis
    using a c w
      decodeBase32_normalization_invariant [OF a(1) a(2), of 6]
      decodeBase32_normalization_invariant [OF a(1) a(3), of 6]
    by (simp add: replicate_numeral decodeBase32_testSecret)
qed
end
